theory Spec2Isabelle
  imports Main "HOL-Library.Word" "HOL-Library.Char_ord" "HOL-Library.List_Lexorder"
    "HOL-Library.AList" "HOL-Library.Product_Lexorder"
begin

section \<open>Common types\<close>

text \<open>
  Go strings and byte slices are byte sequences: \<open>string\<close> (a \<open>char list\<close>, one
  \<open>char\<close> per byte). With \<open>Char_ord\<close> and \<open>List_Lexorder\<close> the order \<open><\<close> on
  \<open>string\<close> is the bytewise lexicographic order of \<open>bytes.Compare\<close>.

  A Go function that returns \<open>(x, err)\<close> or panics returns \<open>failure + 'a\<close> here:
  \<open>Inl (Panic msg)\<close> for a panic, \<open>Inl (Err msg)\<close> for a non-nil error with the
  text \<open>msg\<close>, \<open>Inl (LibErr call)\<close> for the error a library call returned, named by
  the call (its text is not modelled).
\<close>

datatype failure = Panic string | Err string | LibErr string

type_synonym byte = "8 word"

text \<open>\<open>cipher.PubKey\<close> is \<open>[33]byte\<close>; its zero value is 33 zero bytes.\<close>

type_synonym PubKey = "byte list"

definition zero_PubKey :: PubKey where
  "zero_PubKey = replicate 33 0"

text \<open>\<open>PubKey.Null\<close>: the key equals the zero value.\<close>

definition Null :: "PubKey \<Rightarrow> bool" where
  "Null pk = (pk = zero_PubKey)"

section \<open>pkg/snet/tcp\_transport.go: the PubKey translation table\<close>

text \<open>
  \<open>net.TCPAddr\<close>. The field \<open>IP\<close> holds the IP in the text form that
  \<open>addr.IP.String()\<close> prints (the only way the table reads it).
\<close>

record TCPAddr =
  IP :: string
  Port :: nat
  Zone :: string

text \<open>
  The library functions the file calls are parameters of the model:
  \<^item> \<open>ResolveTCPAddr env s\<close> is \<open>net.ResolveTCPAddr("tcp", s)\<close>, \<open>None\<close> when it
    returns an error;
  \<^item> \<open>UnmarshalText env s\<close> is \<open>cipher.PubKey.UnmarshalText\<close>, \<open>None\<close> on error;
  \<^item> \<open>Fields env s\<close> is \<open>strings.Fields\<close>;
  \<^item> \<open>range_order env m\<close> is the order in which \<open>for k, v := range m\<close> visits
    the entries of the map \<open>m\<close> (Go leaves it unspecified).
\<close>

record env =
  ResolveTCPAddr :: "string \<Rightarrow> TCPAddr option"
  UnmarshalText :: "string \<Rightarrow> PubKey option"
  Fields :: "string \<Rightarrow> string list"
  range_order :: "(PubKey \<times> string) list \<Rightarrow> (PubKey \<times> string) list"

text \<open>
  \<open>memPKTable\<close>. The Go map \<open>entries\<close> is an association list with one pair per
  key (\<open>map_of\<close> looks a key up); \<open>reverse\<close> is a map from IP text to key.
\<close>

record memPKTable =
  entries :: "(PubKey \<times> string) list"
  reverse :: "string \<rightharpoonup> PubKey"

text \<open>
  The loop of \<open>memoryPubKeyTable\<close> over the entries in the order given, with the
  reverse index built so far: a failed resolution panics, otherwise
  \<open>reverse[addr.IP.String()] = k\<close>.
\<close>

fun build_reverse ::
  "env \<Rightarrow> (PubKey \<times> string) list \<Rightarrow> (string \<rightharpoonup> PubKey) \<Rightarrow> failure + (string \<rightharpoonup> PubKey)" where
  "build_reverse e [] r = Inr r"
| "build_reverse e ((k, v) # kvs) r =
     (case ResolveTCPAddr e v of
        None \<Rightarrow> Inl (Panic ''error in resolving address'')
      | Some addr \<Rightarrow> build_reverse e kvs (r(IP addr \<mapsto> k)))"

definition memoryPubKeyTable :: "env \<Rightarrow> (PubKey \<times> string) list \<Rightarrow> failure + memPKTable" where
  "memoryPubKeyTable e es =
     (case build_reverse e (range_order e es) Map.empty of
        Inl f \<Rightarrow> Inl f
      | Inr r \<Rightarrow> Inr \<lparr>entries = es, reverse = r\<rparr>)"

definition MemoryPubKeyTable :: "env \<Rightarrow> (PubKey \<times> string) list \<Rightarrow> failure + memPKTable" where
  "MemoryPubKeyTable e es = memoryPubKeyTable e es"

text \<open>\<open>t.entries[remotePK]\<close>: a missing key reads as the empty string.\<close>

definition RemoteAddr :: "memPKTable \<Rightarrow> PubKey \<Rightarrow> string" where
  "RemoteAddr t remotePK = (case map_of (entries t) remotePK of None \<Rightarrow> [] | Some a \<Rightarrow> a)"

text \<open>\<open>t.reverse[addr.IP.String()]\<close>: a missing key reads as the zero key.\<close>

definition RemotePK :: "env \<Rightarrow> memPKTable \<Rightarrow> string \<Rightarrow> failure + PubKey" where
  "RemotePK e t address =
     (case ResolveTCPAddr e address of
        None \<Rightarrow> Inl (Panic ''net.ResolveTCPAddr'')
      | Some addr \<Rightarrow>
          Inr (case reverse t (IP addr) of None \<Rightarrow> zero_PubKey | Some k \<Rightarrow> k))"

definition Count :: "memPKTable \<Rightarrow> nat" where
  "Count t = length (entries t)"

text \<open>
  Go visits every entry of a map once, in an order it does not specify. The theorems
  below assume only that \<open>range\<close> visits exactly the entries of the map.
\<close>

definition visits_all :: "env \<Rightarrow> bool" where
  "visits_all e = (\<forall>m. set (range_order e m) = set m)"

subsection \<open>A concrete environment\<close>

text \<open>
  \<open>strings.Fields\<close> on ASCII text: the maximal runs of bytes other than space, tab,
  newline, vertical tab, form feed and carriage return. \<open>w\<close> is the field being read.
\<close>

definition is_space :: "char \<Rightarrow> bool" where
  "is_space c = (c \<in> set [CHR '' '', CHR 0x09, CHR 0x0A, CHR 0x0B, CHR 0x0C, CHR 0x0D])"

fun split_fields :: "string \<Rightarrow> string \<Rightarrow> string list" where
  "split_fields w [] = (if w = [] then [] else [w])"
| "split_fields w (c # cs) =
     (if is_space c then (if w = [] then split_fields [] cs else w # split_fields [] cs)
      else split_fields (w @ [c]) cs)"

text \<open>
  What \<open>net.ResolveTCPAddr\<close> returns on three literal addresses; every other address
  is taken as unresolvable.
\<close>

definition demo_resolve :: "string \<Rightarrow> TCPAddr option" where
  "demo_resolve s =
     (if s = ''10.0.0.2:7777'' then Some \<lparr>IP = ''10.0.0.2'', Port = 7777, Zone = []\<rparr>
      else if s = ''10.0.0.2:80'' then Some \<lparr>IP = ''10.0.0.2'', Port = 80, Zone = []\<rparr>
      else if s = ''10.0.0.3:1'' then Some \<lparr>IP = ''10.0.0.3'', Port = 1, Zone = []\<rparr>
      else None)"

text \<open>
  A public key and its hex text (the compressed generator point of secp256k1); every
  other key text is taken as unparsable.
\<close>

definition pkB :: PubKey where
  "pkB = [0x02, 0x79, 0xBE, 0x66, 0x7E, 0xF9, 0xDC, 0xBB, 0xAC, 0x55, 0xA0,
          0x62, 0x95, 0xCE, 0x87, 0x0B, 0x07, 0x02, 0x9B, 0xFC, 0xDB, 0x2D,
          0xCE, 0x28, 0xD9, 0x59, 0xF2, 0x81, 0x5B, 0x16, 0xF8, 0x17, 0x98]"

definition pkB_hex :: string where
  "pkB_hex = ''0279be667ef9dcbbac55a06295ce870b07029bfcdb2dce28d959f2815b16f81798''"

definition demo_unmarshal :: "string \<Rightarrow> PubKey option" where
  "demo_unmarshal s = (if s = pkB_hex then Some pkB else None)"

definition demo_env :: env where
  "demo_env = \<lparr>ResolveTCPAddr = demo_resolve,
               UnmarshalText = demo_unmarshal,
               Fields = split_fields [],
               range_order = (\<lambda>m. m)\<rparr>"

definition demo_table :: memPKTable where
  "demo_table = \<lparr>entries = [(pkB, ''10.0.0.2:7777'')], reverse = [''10.0.0.2'' \<mapsto> pkB]\<rparr>"

section \<open>pkg/snet/tcp\_transport.go: the TCP factory\<close>

text \<open>Decimal and hexadecimal printing, as \<open>%v\<close> prints a port and a public key.\<close>

definition digit :: "nat \<Rightarrow> char" where
  "digit n = ''0123456789abcdef'' ! n"

function itoa :: "nat \<Rightarrow> string" where
  "itoa n = (if n < 10 then [digit n] else itoa (n div 10) @ [digit (n mod 10)])"
  by pat_completeness auto
termination
  by (relation "measure id") auto

declare itoa.simps [simp del]

definition hex_byte :: "byte \<Rightarrow> string" where
  "hex_byte b = [digit (unat b div 16), digit (unat b mod 16)]"

definition PubKey_String :: "PubKey \<Rightarrow> string" where
  "PubKey_String pk = concat (map hex_byte pk)"

text \<open>
  \<open>net.JoinHostPort\<close> and \<open>TCPAddr.String\<close>: an empty IP (printed \<open><nil>\<close> by
  \<open>IP.String\<close>) gives an empty host, a zone is appended after \<open>%\<close>, and a host
  with a colon is put in brackets.
\<close>

definition JoinHostPort :: "string \<Rightarrow> string \<Rightarrow> string" where
  "JoinHostPort host port =
     (if CHR '':'' \<in> set host then ''['' @ host @ '']:'' @ port else host @ '':'' @ port)"

definition TCPAddr_String :: "TCPAddr \<Rightarrow> string" where
  "TCPAddr_String a =
     (let ip = (if IP a = ''<nil>'' then [] else IP a) in
      if Zone a \<noteq> [] then JoinHostPort (ip @ ''%'' @ Zone a) (itoa (Port a))
      else JoinHostPort ip (itoa (Port a)))"

record TCPConn =
  conn_fd :: nat
  conn_RemoteAddr :: TCPAddr

record TCPListener =
  Addr :: TCPAddr

record TCPFactory =
  lsn :: TCPListener
  lpk :: PubKey
  pkt :: memPKTable

record TCPTransport =
  TCPConn_of :: TCPConn
  localKey :: PubKey
  remoteKey :: PubKey

text \<open>
  The network as the factory sees it: the connections that are open (a connection
  leaves the list when \<open>Close\<close> is called on it), and the \<open>net.DialTCP\<close> calls made,
  each with its local and remote address.
\<close>

record net =
  open_conns :: "TCPConn list"
  dialed :: "(TCPAddr \<times> TCPAddr) list"

definition ErrUnknownRemote :: failure where
  "ErrUnknownRemote = Err ''unknown remote''"

text \<open>
  \<open>TCPFactory.Accept\<close>. \<open>accepted\<close> is what \<open>f.l.AcceptTCP()\<close> returns: an error
  text, or the new connection, which is open from then on.
\<close>

definition Accept ::
  "env \<Rightarrow> TCPFactory \<Rightarrow> string + TCPConn \<Rightarrow> net \<Rightarrow> (failure + TCPTransport) \<times> net" where
  "Accept e f accepted w =
     (case accepted of
        Inl err \<Rightarrow> (Inl (Err err), w)
      | Inr conn \<Rightarrow>
          (let w' = w\<lparr>open_conns := conn # open_conns w\<rparr>;
               raddr = conn_RemoteAddr conn
           in case RemotePK e (pkt f) (TCPAddr_String raddr) of
                Inl p \<Rightarrow> (Inl p, w')
              | Inr rpk \<Rightarrow>
                  if Null rpk
                  then (Inl (Err (''error: '' @ ''unknown remote'' @ '', raddr: ''
                          @ TCPAddr_String raddr @ '', rpk: '' @ PubKey_String rpk)), w')
                  else (Inr \<lparr>TCPConn_of = conn, localKey = lpk f, remoteKey = rpk\<rparr>, w')))"

text \<open>
  \<open>TCPFactory.Dial\<close>. \<open>DialTCP laddr raddr\<close> is what \<open>net.DialTCP("tcp", laddr, raddr)\<close>
  returns.
\<close>

definition Dial ::
  "env \<Rightarrow> TCPFactory \<Rightarrow> (TCPAddr \<Rightarrow> TCPAddr \<Rightarrow> string + TCPConn) \<Rightarrow> net \<Rightarrow> PubKey
   \<Rightarrow> (failure + TCPTransport) \<times> net" where
  "Dial e f DialTCP w remote =
     (let raddr = RemoteAddr (pkt f) remote in
      if raddr = [] then (Inl ErrUnknownRemote, w)
      else case ResolveTCPAddr e raddr of
        None \<Rightarrow> (Inl (LibErr ''net.ResolveTCPAddr''), w)
      | Some tcpAddr \<Rightarrow>
        (case ResolveTCPAddr e (TCPAddr_String (Addr (lsn f))) of
           None \<Rightarrow> (Inl (Err ''error in resolving local address''), w)
         | Some lsnAddr \<Rightarrow>
           (case ResolveTCPAddr e (IP lsnAddr @ '':'' @ ''0'') of
              None \<Rightarrow> (Inl (Err ''error in constructing local address ''), w)
            | Some locAddr \<Rightarrow>
              (let w' = w\<lparr>dialed := dialed w @ [(locAddr, tcpAddr)]\<rparr> in
               case DialTCP locAddr tcpAddr of
                 Inl err \<Rightarrow> (Inl (Err err), w')
               | Inr conn \<Rightarrow>
                   (Inr \<lparr>TCPConn_of = conn, localKey = lpk f, remoteKey = remote\<rparr>,
                    w'\<lparr>open_conns := conn # open_conns w'\<rparr>)))))"

section \<open>pkg/snet/tcp\_transport.go: the file-backed table\<close>

text \<open>
  \<open>bufio.Scanner\<close> with its default split function and buffer: each call of \<open>Scan\<close>
  yields the next line without its end-of-line marker (\<open>\n\<close>, or \<open>\r\n\<close>); a last
  line without a newline is yielded too. The buffer holds at most \<open>MaxScanTokenSize\<close>
  bytes, the newline included: when it fills up before a newline is found, \<open>Scan\<close>
  returns false (the scanner's error is \<open>ErrTooLong\<close>) and the scan is over.
  \<open>scan_lines d\<close> is the list of lines that the successive calls yield on the data \<open>d\<close>.
\<close>

definition MaxScanTokenSize :: nat where
  "MaxScanTokenSize = 64 * 1024"

definition dropCR :: "string \<Rightarrow> string" where
  "dropCR ln = (if ln \<noteq> [] \<and> last ln = CHR 0x0D then butlast ln else ln)"

function scan_lines :: "string \<Rightarrow> string list" where
  "scan_lines d =
     (if d = [] then []
      else let ln = takeWhile (\<lambda>c. c \<noteq> CHR 0x0A) d in
        if MaxScanTokenSize \<le> length ln then []
        else dropCR ln # scan_lines (drop (Suc (length ln)) d))"
  by pat_completeness auto
termination
  by (relation "measure length") auto

declare scan_lines.simps [simp del]

text \<open>
  The body of the loop \<open>for scanner.Scan()\<close>, over the lines scanned, with the map
  \<open>entries\<close> built so far: a line is skipped unless it has two fields, the first parses
  as a public key and the second resolves; otherwise \<open>entries[pk] = addr.String()\<close>.
\<close>

fun scan_loop :: "env \<Rightarrow> string list \<Rightarrow> (PubKey \<times> string) list \<Rightarrow> (PubKey \<times> string) list" where
  "scan_loop e [] es = es"
| "scan_loop e (text # rest) es =
     (let components = Fields e text in
      if length components \<noteq> 2 then scan_loop e rest es
      else case UnmarshalText e (components ! 0) of
        None \<Rightarrow> scan_loop e rest es
      | Some pk \<Rightarrow>
        (case ResolveTCPAddr e (components ! 1) of
           None \<Rightarrow> scan_loop e rest es
         | Some addr \<Rightarrow> scan_loop e rest (AList.update pk (TCPAddr_String addr) es)))"

record filePKTable =
  dbFile :: string
  memPKTable_of :: memPKTable

text \<open>
  \<open>FilePubKeyTable\<close>. \<open>file\<close> is what opening \<open>dbFile\<close> gives: the error text of
  \<open>filepath.Abs\<close> or \<open>os.Open\<close>, or the content of the file.
\<close>

definition FilePubKeyTable :: "env \<Rightarrow> string \<Rightarrow> string + string \<Rightarrow> failure + filePKTable" where
  "FilePubKeyTable e dbf file =
     (case file of
        Inl err \<Rightarrow> Inl (Err err)
      | Inr content \<Rightarrow>
          (case memoryPubKeyTable e (scan_loop e (scan_lines content) []) of
             Inl p \<Rightarrow> Inl p
           | Inr t \<Rightarrow> Inr \<lparr>dbFile = dbf, memPKTable_of = t\<rparr>))"

text \<open>
  The specification's reading of the file: a line is well-formed when it has two
  fields, a public key text that parses and an address that resolves, and it then
  stands for the entry of that key with the resolved address.
\<close>

definition line_entry :: "env \<Rightarrow> string \<Rightarrow> (PubKey \<times> string) option" where
  "line_entry e text =
     (case Fields e text of
        [k, a] \<Rightarrow>
          (case UnmarshalText e k of
             None \<Rightarrow> None
           | Some pk \<Rightarrow>
               (case ResolveTCPAddr e a of
                  None \<Rightarrow> None
                | Some addr \<Rightarrow> Some (pk, TCPAddr_String addr)))
      | _ \<Rightarrow> None)"

definition wellformed_entries :: "env \<Rightarrow> string list \<Rightarrow> (PubKey \<times> string) list" where
  "wellformed_entries e lns = List.map_filter (line_entry e) lns"

text \<open>
  The text that \<open>TCPAddr.String\<close> prints for a resolved address resolves again.
\<close>

definition stable_resolver :: "env \<Rightarrow> bool" where
  "stable_resolver e =
     (\<forall>s a. ResolveTCPAddr e s = Some a \<longrightarrow> ResolveTCPAddr e (TCPAddr_String a) \<noteq> None)"

subsection \<open>Concrete inputs\<close>

definition demo_factory :: TCPFactory where
  "demo_factory = \<lparr>lsn = \<lparr>Addr = \<lparr>IP = ''10.0.0.1'', Port = 7777, Zone = []\<rparr>\<rparr>,
                    lpk = zero_PubKey, pkt = demo_table\<rparr>"

text \<open>An inbound connection from \<open>10.0.0.3:1\<close>, an address the table does not know.\<close>

definition demo_conn :: TCPConn where
  "demo_conn = \<lparr>conn_fd = 5, conn_RemoteAddr = \<lparr>IP = ''10.0.0.3'', Port = 1, Zone = []\<rparr>\<rparr>"

text \<open>
  The record \<open>"<key> 10.0.0.2:7777"\<close>, and a file of two lines: a first line of
  \<open>n\<close> bytes \<open>x\<close>, then the record.
\<close>

definition demo_record :: string where
  "demo_record = pkB_hex @ '' 10.0.0.2:7777''"

definition demo_file :: "nat \<Rightarrow> string" where
  "demo_file n = replicate n (CHR ''x'') @ CHR 0x0A # demo_record @ [CHR 0x0A]"

section \<open>Package app: the log store\<close>

text \<open>
  A bbolt bucket is its key/value pairs in ascending bytewise key order, one pair per
  key; a database is its top-level buckets by name.
\<close>

type_synonym Bucket = "(string \<times> string) list"

type_synonym DB = "(string \<times> Bucket) list"

record boltDBappLogs =
  dbpath :: string
  bucket :: string

text \<open>
  \<open>Bucket.Put\<close>: the pair goes to its place in key order, replacing the pair of an
  equal key; an empty or over-long key and an over-long value are errors.
\<close>

definition MaxKeySize :: nat where
  "MaxKeySize = 32768"

definition MaxValueSize :: nat where
  "MaxValueSize = 2 ^ 31 - 2"

fun put_sorted :: "string \<Rightarrow> string \<Rightarrow> Bucket \<Rightarrow> Bucket" where
  "put_sorted key val [] = [(key, val)]"
| "put_sorted key val ((k, v) # b) =
     (if k < key then (k, v) # put_sorted key val b
      else if k = key then (key, val) # b
      else (key, val) # (k, v) # b)"

definition Bucket_Put :: "Bucket \<Rightarrow> string \<Rightarrow> string \<Rightarrow> failure + Bucket" where
  "Bucket_Put b key val =
     (if key = [] then Inl (Err ''key required'')
      else if MaxKeySize < length key then Inl (Err ''key too large'')
      else if MaxValueSize < length val then Inl (Err ''value too large'')
      else Inr (put_sorted key val b))"

definition nil_deref :: failure where
  "nil_deref = Panic ''invalid memory address or nil pointer dereference''"

text \<open>
  \<open>db.Update(func(tx) { b := tx.Bucket(name); return b.Put(key, val) })\<close>:
  \<open>tx.Bucket\<close> is nil for a bucket that does not exist, and \<open>Put\<close> on it panics; an
  error of \<open>Put\<close> rolls the transaction back.
\<close>

definition Update_Put :: "DB \<Rightarrow> string \<Rightarrow> string \<Rightarrow> string \<Rightarrow> failure + DB" where
  "Update_Put db name key val =
     (case map_of db name of
        None \<Rightarrow> Inl nil_deref
      | Some b \<Rightarrow>
          (case Bucket_Put b key val of
             Inl f \<Rightarrow> Inl f
           | Inr b' \<Rightarrow> Inr (AList.update name b' db)))"

text \<open>
  \<open>newBoltDB\<close>. \<open>file\<close> is what \<open>bbolt.Open\<close> returns: an error text or the database.
  The bucket named after the app is created unless it exists; bbolt refuses an empty
  bucket name.
\<close>

definition newBoltDB :: "string \<Rightarrow> string \<Rightarrow> string + DB \<Rightarrow> failure + boltDBappLogs \<times> DB" where
  "newBoltDB path appName file =
     (case file of
        Inl err \<Rightarrow> Inl (Err err)
      | Inr db \<Rightarrow>
          if appName = [] then Inl (Err ''failed to create bucket: bucket name required'')
          else Inr (\<lparr>dbpath = path, bucket = appName\<rparr>,
                    if map_of db appName = None then db @ [(appName, [])] else db))"

text \<open>
  A Go byte slice: \<open>elems\<close> are its \<open>len\<close> elements, \<open>spare\<close> the bytes of its
  backing array after them, up to its capacity. \<open>reslice p lo hi\<close> is \<open>p[lo:hi]\<close>: the
  bounds are checked against the capacity, and out-of-range bounds panic (\<open>None\<close>).
\<close>

record slice =
  elems :: string
  spare :: string

definition reslice :: "slice \<Rightarrow> nat \<Rightarrow> nat \<Rightarrow> string option" where
  "reslice p lo hi =
     (if lo \<le> hi \<and> hi \<le> length (elems p) + length (spare p)
      then Some (take (hi - lo) (drop lo (elems p @ spare p)))
      else None)"

text \<open>\<open>Write\<close>: returns \<open>len(p)\<close> and the database after the update.\<close>

definition Write :: "boltDBappLogs \<Rightarrow> string + DB \<Rightarrow> slice \<Rightarrow> failure + (nat \<times> DB)" where
  "Write lg file p =
     (case file of
        Inl err \<Rightarrow> Inl (Err err)
      | Inr db \<Rightarrow>
          (case reslice p 1 36 of
             None \<Rightarrow> Inl (Panic ''slice bounds out of range'')
           | Some t \<Rightarrow>
               (case Update_Put db (bucket lg) t (elems p) of
                  Inl f \<Rightarrow> Inl f
                | Inr db' \<Rightarrow> Inr (length (elems p), db'))))"

text \<open>\<open>Store\<close>. \<open>Format t\<close> is \<open>t.Format(time.RFC3339Nano)\<close>.\<close>

definition Store ::
  "('t \<Rightarrow> string) \<Rightarrow> boltDBappLogs \<Rightarrow> string + DB \<Rightarrow> 't \<Rightarrow> string \<Rightarrow> failure + DB" where
  "Store Format lg file t s =
     (case file of
        Inl err \<Rightarrow> Inl (Err err)
      | Inr db \<Rightarrow> Update_Put db (bucket lg) (Format t) s)"

text \<open>
  A bbolt cursor is the pairs of the bucket from its position on; the pair it is at is
  the first of them, and there is none past the end (bbolt returns a nil key).
  \<open>First\<close> goes to the first pair, \<open>Seek\<close> to the first pair whose key is not below the
  one sought, \<open>Next\<close> one pair on; each returns the pair the cursor is then at.
\<close>

type_synonym Cursor = Bucket

definition item_at :: "Cursor \<Rightarrow> (string \<times> string) option" where
  "item_at c = (case c of [] \<Rightarrow> None | kv # _ \<Rightarrow> Some kv)"

definition Cursor_First :: "Bucket \<Rightarrow> Cursor \<times> (string \<times> string) option" where
  "Cursor_First b = (b, item_at b)"

definition Cursor_Seek :: "Bucket \<Rightarrow> string \<Rightarrow> Cursor \<times> (string \<times> string) option" where
  "Cursor_Seek b seek = (let c = dropWhile (\<lambda>(k, v). k < seek) b in (c, item_at c))"

definition Cursor_Next :: "Cursor \<Rightarrow> Cursor \<times> (string \<times> string) option" where
  "Cursor_Next c = (case c of [] \<Rightarrow> ([], None) | _ # c' \<Rightarrow> (c', item_at c'))"

text \<open>\<open>iterateFromKey\<close>: \<open>for k, v := c.Next(); k != nil; k, v = c.Next()\<close>.\<close>

function iterateFromKey :: "Cursor \<Rightarrow> string list \<Rightarrow> string list" where
  "iterateFromKey c logs =
     (case Cursor_Next c of
        (c', None) \<Rightarrow> logs
      | (c', Some (k, v)) \<Rightarrow> iterateFromKey c' (logs @ [v]))"
  by pat_completeness auto
termination
  by (relation "measure (\<lambda>(c, logs). length c)")
    (auto simp: Cursor_Next_def item_at_def split: list.splits)

text \<open>
  \<open>iterateFromBeginning\<close>: \<open>for k, v := c.First(); k != nil; k, v = c.Next()\<close>, with
  \<open>from_item\<close> the loop from the pair \<open>item\<close> that the cursor \<open>c\<close> has just returned.
\<close>

function from_item ::
  "Cursor \<Rightarrow> (string \<times> string) option \<Rightarrow> string \<Rightarrow> string list \<Rightarrow> string list" where
  "from_item c item parsedTime logs =
     (case item of
        None \<Rightarrow> logs
      | Some (k, v) \<Rightarrow>
          (case Cursor_Next c of
             (c', item') \<Rightarrow>
               from_item c' item' parsedTime (if k < parsedTime then logs else logs @ [v])))"
  by pat_completeness auto
termination
  by (relation "measure (\<lambda>(c, item, p, logs). case item of None \<Rightarrow> 0 | Some _ \<Rightarrow> Suc (length c))")
    (auto simp: Cursor_Next_def item_at_def split: list.splits option.splits)

declare iterateFromKey.simps [simp del] from_item.simps [simp del]

definition iterateFromBeginning :: "Bucket \<Rightarrow> string \<Rightarrow> string list \<Rightarrow> string list" where
  "iterateFromBeginning b parsedTime logs =
     (case Cursor_First b of (c, item) \<Rightarrow> from_item c item parsedTime logs)"

definition LogsSince ::
  "('t \<Rightarrow> string) \<Rightarrow> boltDBappLogs \<Rightarrow> string + DB \<Rightarrow> 't \<Rightarrow> failure + string list" where
  "LogsSince Format lg file t =
     (case file of
        Inl err \<Rightarrow> Inl (Err err)
      | Inr db \<Rightarrow>
          (case map_of db (bucket lg) of
             None \<Rightarrow> Inl nil_deref
           | Some b \<Rightarrow>
               (let parsedTime = Format t in
                case map_of b parsedTime of
                  None \<Rightarrow> Inr (iterateFromBeginning b parsedTime [])
                | Some v \<Rightarrow> Inr (iterateFromKey (fst (Cursor_Seek b parsedTime)) []))))"

subsection \<open>Stored entries and their timestamps\<close>

text \<open>A sequence of \<open>Store\<close> calls, one per record, each on the database the last left.\<close>

fun Store_each ::
  "('t \<Rightarrow> string) \<Rightarrow> boltDBappLogs \<Rightarrow> DB \<Rightarrow> ('t \<times> string) list \<Rightarrow> failure + DB" where
  "Store_each Format lg db [] = Inr db"
| "Store_each Format lg db ((t, s) # recs) =
     (case Store Format lg (Inr db) t s of
        Inl f \<Rightarrow> Inl f
      | Inr db' \<Rightarrow> Store_each Format lg db' recs)"

definition put_each :: "('t \<Rightarrow> string) \<Rightarrow> ('t \<times> string) list \<Rightarrow> Bucket \<Rightarrow> Bucket" where
  "put_each Format recs b = fold (\<lambda>(t, s). put_sorted (Format t) s) recs b"

text \<open>
  The specification's reading of a query: of the records stored (the last one stored
  for a timestamp counts), those whose timestamp satisfies \<open>P\<close>, in chronological order.
\<close>

definition entries_where :: "('t::linorder \<Rightarrow> bool) \<Rightarrow> ('t \<times> string) list \<Rightarrow> string list" where
  "entries_where P recs =
     map (\<lambda>t'. the (map_of (rev recs) t')) (sort (remdups (filter P (map fst recs))))"

text \<open>The text order of the keys agrees with the order in time, on the timestamps \<open>T\<close>.\<close>

definition agrees_with_time :: "('t::linorder \<Rightarrow> string) \<Rightarrow> 't set \<Rightarrow> bool" where
  "agrees_with_time Format T = (\<forall>a \<in> T. \<forall>b \<in> T. a < b \<longrightarrow> Format a < Format b)"

text \<open>
  \<open>time.RFC3339Nano\<close> on UTC times: a time is year, month, day, hour, minute, second
  and nanosecond, ordered lexicographically; the fraction of a second is printed without
  its trailing zeros, and not at all when it is zero.
\<close>

type_synonym Time = "nat \<times> nat \<times> nat \<times> nat \<times> nat \<times> nat \<times> nat"

definition pad :: "nat \<Rightarrow> nat \<Rightarrow> string" where
  "pad w n = replicate (w - length (itoa n)) (CHR ''0'') @ itoa n"

definition frac :: "nat \<Rightarrow> string" where
  "frac ns =
     (if ns = 0 then []
      else CHR ''.'' # rev (dropWhile (\<lambda>c. c = CHR ''0'') (rev (pad 9 ns))))"

fun Format_RFC3339Nano :: "Time \<Rightarrow> string" where
  "Format_RFC3339Nano (y, mo, d, h, mi, s, ns) =
     pad 4 y @ ''-'' @ pad 2 mo @ ''-'' @ pad 2 d @ ''T''
       @ pad 2 h @ '':'' @ pad 2 mi @ '':'' @ pad 2 s @ frac ns @ ''Z''"

subsection \<open>Concrete stores\<close>

definition demo_logs :: boltDBappLogs where
  "demo_logs = \<lparr>dbpath = ''logs.db'', bucket = ''foo''\<rparr>"

definition demo_recs :: "(Time \<times> string) list" where
  "demo_recs = [((2000, 3, 1, 0, 0, 0, 0), ''foo''),
                ((2000, 1, 1, 0, 0, 0, 0), ''bar''),
                ((2000, 2, 1, 0, 0, 0, 0), ''middle'')]"

definition demo_db :: DB where
  "demo_db = [(''foo'', [(''2000-01-01T00:00:00Z'', ''bar''),
                         (''2000-02-01T00:00:00Z'', ''middle''),
                         (''2000-03-01T00:00:00Z'', ''foo'')])]"

definition frac_recs :: "(Time \<times> string) list" where
  "frac_recs = [((2000, 1, 1, 0, 0, 0, 0), ''sharp''),
                ((2000, 1, 1, 0, 0, 0, 500000000), ''half past'')]"

definition frac_db :: DB where
  "frac_db = [(''foo'', [(''2000-01-01T00:00:00.5Z'', ''half past''),
                         (''2000-01-01T00:00:00Z'', ''sharp'')])]"

text \<open>A slice of 5 bytes with capacity 36, and a record of 40 bytes.\<close>

definition short_slice :: slice where
  "short_slice = \<lparr>elems = ''short'', spare = replicate 31 (CHR ''-'')\<rparr>"

definition long_slice :: slice where
  "long_slice = \<lparr>elems = ''[2000-01-01T00:00:00.000000001+00:00] hi'', spare = []\<rparr>"

section \<open>pkg/node: spawning an app\<close>

text \<open>
  The node's configuration of an app and its record of a started app, as
  \<open>node_test.go\<close> builds them: \<open>AppConfig{App, Version, AutoStart, Port, Args}\<close> and
  \<open>startedApps: map[string]*appBind{"skychat": {conn, 10}}\<close>. The node state also
  records the commands handed to the executer and the \<open>ServeApp(conn, port)\<close> calls
  made on the router, which are the node's network calls.
\<close>

record AppConfig =
  App :: string
  Version :: string
  AutoStart :: bool
  conf_Port :: nat
  Args :: "string list"

record appBind =
  bind_conn :: nat
  bind_port :: nat

record Node =
  startedApps :: "(string \<times> appBind) list"
  executed :: "string list"
  served :: "(nat \<times> nat) list"

definition port_bound :: "Node \<Rightarrow> nat \<Rightarrow> bool" where
  "port_bound node p = (\<exists>(name, b) \<in> set (startedApps node). bind_port b = p)"

text \<open>
  Modelled from the spec: \<open>Node.SpawnApp\<close> (pkg/node/node.go is not among the sources;
  only its test is). The specification says that binding to a reserved port fails before
  any network call, that binding to a port already bound fails with an explicit
  "already started" error leaving the original binding active, and the test gives the
  error texts and what a failing executable returns. Which ports are reserved is the
  parameter \<open>reserved\<close>; \<open>Start cmd\<close> is what the executer returns for the command: an
  error text, or the connection of the started app.
\<close>

definition SpawnApp ::
  "(nat \<Rightarrow> bool) \<Rightarrow> (string \<Rightarrow> string + nat) \<Rightarrow> Node \<Rightarrow> AppConfig
   \<Rightarrow> (failure + unit) \<times> Node" where
  "SpawnApp reserved Start node conf =
     (if reserved (conf_Port conf)
      then (Inl (Err (''can't bind to reserved port '' @ itoa (conf_Port conf))), node)
      else if port_bound node (conf_Port conf)
      then (Inl (Err (''app '' @ App conf @ '' is already started'')), node)
      else let cmd = App conf @ ''.v'' @ Version conf;
               node' = node\<lparr>executed := executed node @ [cmd]\<rparr>
           in case Start cmd of
                Inl err \<Rightarrow> (Inl (Err (''failed to run app executable: '' @ err)), node')
              | Inr conn \<Rightarrow>
                  (Inr (),
                   node'\<lparr>startedApps := AList.update (App conf)
                            \<lparr>bind_conn = conn, bind_port = conf_Port conf\<rparr> (startedApps node'),
                          served := served node' @ [(conn, conf_Port conf)]\<rparr>))"

text \<open>No reserved port is bound: the states that \<open>SpawnApp\<close> can reach.\<close>

definition no_reserved_bound :: "(nat \<Rightarrow> bool) \<Rightarrow> Node \<Rightarrow> bool" where
  "no_reserved_bound reserved node =
     (\<forall>(name, b) \<in> set (startedApps node). \<not> reserved (bind_port b))"

text \<open>The node of \<open>TestNodeSpawnAppValidations\<close>: \<open>skychat\<close> is started on port 10.\<close>

definition test_node :: Node where
  "test_node = \<lparr>startedApps = [(''skychat'', \<lparr>bind_conn = 0, bind_port = 10\<rparr>)],
                 executed = [], served = []\<rparr>"

definition test_conf :: "string \<Rightarrow> nat \<Rightarrow> AppConfig" where
  "test_conf app p = \<lparr>App = app, Version = ''1.0'', AutoStart = False, conf_Port = p, Args = []\<rparr>"

section \<open>Facts about the table\<close>

lemma set_update_subset: "set (AList.update k v al) \<subseteq> insert (k, v) (set al)"
  by (induction al) auto

lemma visits_all_demo: "visits_all demo_env"
  by (simp add: visits_all_def demo_env_def)

lemma demo_table_built:
  "MemoryPubKeyTable demo_env [(pkB, ''10.0.0.2:7777'')] = Inr demo_table"
  by (simp add: MemoryPubKeyTable_def memoryPubKeyTable_def demo_env_def demo_resolve_def
      demo_table_def)

lemma pkB_not_zero: "pkB \<noteq> zero_PubKey"
  by (simp add: pkB_def zero_PubKey_def numeral_eq_Suc)

lemma build_reverse_panic:
  "(k, v) \<in> set kvs \<Longrightarrow> ResolveTCPAddr e v = None \<Longrightarrow>
   build_reverse e kvs r = Inl (Panic ''error in resolving address'')"
  by (induction kvs arbitrary: r) (auto split: option.splits)

lemma build_reverse_ok:
  "(\<And>k v. (k, v) \<in> set kvs \<Longrightarrow> ResolveTCPAddr e v \<noteq> None) \<Longrightarrow>
   \<exists>r'. build_reverse e kvs r = Inr r'"
proof (induction kvs arbitrary: r)
  case Nil
  then show ?case by simp
next
  case (Cons kv kvs)
  obtain k v where kv: "kv = (k, v)" by (cases kv)
  from Cons.prems [of k v] kv obtain a where a: "ResolveTCPAddr e v = Some a" by auto
  have "\<exists>r'. build_reverse e kvs (r(IP a \<mapsto> k)) = Inr r'"
    by (rule Cons.IH) (use Cons.prems in auto)
  with kv a show ?case by simp
qed

lemma build_reverse_resolves:
  "build_reverse e kvs r = Inr r' \<Longrightarrow> (k, v) \<in> set kvs \<Longrightarrow> ResolveTCPAddr e v \<noteq> None"
  by (induction kvs arbitrary: r) (auto split: option.splits)

lemma build_reverse_None:
  "build_reverse e kvs r = Inr r' \<Longrightarrow>
   r' ip = None \<longleftrightarrow>
     (r ip = None \<and> (\<forall>(k, v) \<in> set kvs. \<forall>a. ResolveTCPAddr e v = Some a \<longrightarrow> IP a \<noteq> ip))"
proof (induction kvs arbitrary: r)
  case Nil
  then show ?case by simp
next
  case (Cons kv kvs)
  obtain k v where kv: "kv = (k, v)" by (cases kv)
  from Cons.prems kv obtain a where a: "ResolveTCPAddr e v = Some a"
    and rest: "build_reverse e kvs (r(IP a \<mapsto> k)) = Inr r'"
    by (auto split: option.splits)
  show ?case
    unfolding Cons.IH [OF rest] using kv a by auto
qed

lemma build_reverse_Some:
  "build_reverse e kvs r = Inr r' \<Longrightarrow> r' ip = Some k \<Longrightarrow>
   r ip = Some k \<or> (\<exists>v a. (k, v) \<in> set kvs \<and> ResolveTCPAddr e v = Some a \<and> IP a = ip)"
proof (induction kvs arbitrary: r)
  case Nil
  then show ?case by simp
next
  case (Cons kv kvs)
  obtain k0 v0 where kv: "kv = (k0, v0)" by (cases kv)
  from Cons.prems(1) kv obtain a0 where a0: "ResolveTCPAddr e v0 = Some a0"
    and rest: "build_reverse e kvs (r(IP a0 \<mapsto> k0)) = Inr r'"
    by (auto split: option.splits)
  from Cons.IH [OF rest Cons.prems(2)] show ?case
    using kv a0 by (auto split: if_splits)
qed

text \<open>What a successful construction returns.\<close>

lemma MemoryPubKeyTable_Inr:
  assumes "MemoryPubKeyTable e es = Inr t"
  obtains r where "build_reverse e (range_order e es) Map.empty = Inr r"
    and "t = \<lparr>entries = es, reverse = r\<rparr>"
  using assms by (auto simp: MemoryPubKeyTable_def memoryPubKeyTable_def split: sum.splits)

lemma reverse_miss:
  assumes v: "visits_all e" and t: "MemoryPubKeyTable e es = Inr t"
    and miss: "\<forall>(k, v) \<in> set es. \<forall>a. ResolveTCPAddr e v = Some a \<longrightarrow> IP a \<noteq> ip"
  shows "reverse t ip = None"
proof -
  from t obtain r where r: "build_reverse e (range_order e es) Map.empty = Inr r"
    and tr: "t = \<lparr>entries = es, reverse = r\<rparr>"
    by (rule MemoryPubKeyTable_Inr)
  have "set (range_order e es) = set es" using v by (simp add: visits_all_def)
  with miss build_reverse_None [OF r, of ip] have "r ip = None" by simp
  with tr show ?thesis by simp
qed

lemma reverse_hit:
  assumes v: "visits_all e" and t: "MemoryPubKeyTable e es = Inr t"
    and mem: "(pk, s) \<in> set es"
    and d: "\<forall>(k, v) \<in> set es. \<forall>(k', v') \<in> set es. \<forall>a a'.
              ResolveTCPAddr e v = Some a \<and> ResolveTCPAddr e v' = Some a' \<and> IP a = IP a'
              \<longrightarrow> k = k'"
  shows "\<exists>a. ResolveTCPAddr e s = Some a \<and> reverse t (IP a) = Some pk"
proof -
  from t obtain r where r: "build_reverse e (range_order e es) Map.empty = Inr r"
    and tr: "t = \<lparr>entries = es, reverse = r\<rparr>"
    by (rule MemoryPubKeyTable_Inr)
  have same: "set (range_order e es) = set es" using v by (simp add: visits_all_def)
  with mem have mem': "(pk, s) \<in> set (range_order e es)" by simp
  from build_reverse_resolves [OF r mem'] obtain a where a: "ResolveTCPAddr e s = Some a"
    by auto
  have "r (IP a) \<noteq> None"
    using build_reverse_None [OF r, of "IP a"] mem' a by auto
  then obtain k' where k': "r (IP a) = Some k'" by auto
  from build_reverse_Some [OF r k'] obtain v' a' where
    other: "(k', v') \<in> set es" "ResolveTCPAddr e v' = Some a'" "IP a' = IP a"
    using same by auto
  with d mem a have "pk = k'" by fastforce
  with a k' tr show ?thesis by simp
qed

section \<open>Theorems about the table\<close>

text \<open>
  C2: for every table built from a mapping \<open>es\<close>, \<open>RemoteAddr pk\<close> is the empty string
  when \<open>pk\<close> has no entry, and \<open>RemotePK address\<close> is the zero key when \<open>address\<close>
  resolves to an IP that no entry resolves to. For the table \<open>{B: "10.0.0.2:7777"}\<close>,
  with a resolver that gives the two addresses different IPs,
  \<open>RemotePK "10.0.0.2:7777"\<close> is \<open>B\<close> and \<open>RemotePK "10.0.0.3:1"\<close> is the zero key.
\<close>

theorem C2_unknown_lookups:
  assumes "visits_all e" and "MemoryPubKeyTable e es = Inr t"
  shows "(pk \<notin> fst ` set es \<longrightarrow> RemoteAddr t pk = [])
    \<and> (\<forall>addr. ResolveTCPAddr e address = Some addr
          \<and> (\<forall>(k, v) \<in> set es. \<forall>a. ResolveTCPAddr e v = Some a \<longrightarrow> IP a \<noteq> IP addr)
          \<longrightarrow> RemotePK e t address = Inr zero_PubKey)
    \<and> (es = [(B, ''10.0.0.2:7777'')]
          \<and> (\<exists>a b. ResolveTCPAddr e ''10.0.0.2:7777'' = Some a
                \<and> ResolveTCPAddr e ''10.0.0.3:1'' = Some b \<and> IP a \<noteq> IP b)
          \<longrightarrow> RemotePK e t ''10.0.0.2:7777'' = Inr B
              \<and> RemotePK e t ''10.0.0.3:1'' = Inr zero_PubKey)"
proof (intro conjI impI allI)
  assume "pk \<notin> fst ` set es"
  then have "map_of es pk = None" by (simp add: map_of_eq_None_iff)
  moreover have "entries t = es"
    using assms(2) by (auto elim: MemoryPubKeyTable_Inr)
  ultimately show "RemoteAddr t pk = []" by (simp add: RemoteAddr_def)
next
  fix addr
  assume h: "ResolveTCPAddr e address = Some addr
    \<and> (\<forall>(k, v) \<in> set es. \<forall>a. ResolveTCPAddr e v = Some a \<longrightarrow> IP a \<noteq> IP addr)"
  then have "reverse t (IP addr) = None"
    using reverse_miss [OF assms] by blast
  with h show "RemotePK e t address = Inr zero_PubKey" by (simp add: RemotePK_def)
next
  assume h: "es = [(B, ''10.0.0.2:7777'')]
    \<and> (\<exists>a b. ResolveTCPAddr e ''10.0.0.2:7777'' = Some a
          \<and> ResolveTCPAddr e ''10.0.0.3:1'' = Some b \<and> IP a \<noteq> IP b)"
  then obtain a b where a: "ResolveTCPAddr e ''10.0.0.2:7777'' = Some a"
    and b: "ResolveTCPAddr e ''10.0.0.3:1'' = Some b" and ab: "IP a \<noteq> IP b"
    by blast
  from h have es: "es = [(B, ''10.0.0.2:7777'')]" by simp
  have "\<exists>a'. ResolveTCPAddr e ''10.0.0.2:7777'' = Some a' \<and> reverse t (IP a') = Some B"
    by (rule reverse_hit [OF assms]) (simp_all add: es)
  with a show "RemotePK e t ''10.0.0.2:7777'' = Inr B" by (simp add: RemotePK_def)
  have "reverse t (IP b) = None"
    by (rule reverse_miss [OF assms]) (use a ab in \<open>simp add: es\<close>)
  with b show "RemotePK e t ''10.0.0.3:1'' = Inr zero_PubKey" by (simp add: RemotePK_def)
qed

theorem C2_unknown_lookups_witness:
  "visits_all demo_env
   \<and> MemoryPubKeyTable demo_env [(pkB, ''10.0.0.2:7777'')] = Inr demo_table
   \<and> zero_PubKey \<notin> fst ` set [(pkB, ''10.0.0.2:7777'')]
   \<and> RemoteAddr demo_table zero_PubKey = []
   \<and> RemotePK demo_env demo_table ''10.0.0.2:7777'' = Inr pkB
   \<and> RemotePK demo_env demo_table ''10.0.0.3:1'' = Inr zero_PubKey"
  using C2_unknown_lookups [OF visits_all_demo demo_table_built,
      of zero_PubKey "''10.0.0.3:1''" pkB] pkB_not_zero
  by (simp add: visits_all_demo demo_table_built)
    (simp add: demo_env_def demo_resolve_def)

text \<open>
  C5: \<open>RemotePK\<close> reads the table through the resolved IP only: two addresses that
  resolve to the same IP, whatever their ports, get the same answer, which is the key
  stored for that IP (or the zero key).
\<close>

theorem C5_RemotePK_ignores_port:
  "ResolveTCPAddr e s1 = Some a1 \<and> ResolveTCPAddr e s2 = Some a2 \<and> IP a1 = IP a2
   \<longrightarrow> RemotePK e t s1 = RemotePK e t s2
     \<and> RemotePK e t s1 =
         Inr (case reverse t (IP a1) of None \<Rightarrow> zero_PubKey | Some k \<Rightarrow> k)"
  by (simp add: RemotePK_def)

theorem C5_RemotePK_ignores_port_witness:
  "ResolveTCPAddr demo_env ''10.0.0.2:7777'' = Some \<lparr>IP = ''10.0.0.2'', Port = 7777, Zone = []\<rparr>
   \<and> ResolveTCPAddr demo_env ''10.0.0.2:80'' = Some \<lparr>IP = ''10.0.0.2'', Port = 80, Zone = []\<rparr>
   \<and> RemotePK demo_env demo_table ''10.0.0.2:7777'' = RemotePK demo_env demo_table ''10.0.0.2:80''
   \<and> RemotePK demo_env demo_table ''10.0.0.2:80'' = Inr pkB"
  using C5_RemotePK_ignores_port [of demo_env "''10.0.0.2:7777''"
      "\<lparr>IP = ''10.0.0.2'', Port = 7777, Zone = []\<rparr>" "''10.0.0.2:80''"
      "\<lparr>IP = ''10.0.0.2'', Port = 80, Zone = []\<rparr>" demo_table]
  by (simp add: demo_env_def demo_resolve_def demo_table_def RemotePK_def)

text \<open>
  C7: building the in-memory table panics if some supplied address fails to resolve,
  and returns a table holding the supplied mapping if every address resolves.
\<close>

theorem C7_MemoryPubKeyTable_panics_iff_unresolvable:
  assumes "visits_all e"
  shows "((\<exists>(k, v) \<in> set es. ResolveTCPAddr e v = None) \<longrightarrow>
            MemoryPubKeyTable e es = Inl (Panic ''error in resolving address''))
       \<and> ((\<forall>(k, v) \<in> set es. ResolveTCPAddr e v \<noteq> None) \<longrightarrow>
            (\<exists>t. MemoryPubKeyTable e es = Inr t \<and> entries t = es))"
proof (intro conjI impI)
  assume "\<exists>(k, v) \<in> set es. ResolveTCPAddr e v = None"
  then obtain k v where "(k, v) \<in> set (range_order e es)" "ResolveTCPAddr e v = None"
    using assms by (auto simp: visits_all_def)
  then show "MemoryPubKeyTable e es = Inl (Panic ''error in resolving address'')"
    by (simp add: MemoryPubKeyTable_def memoryPubKeyTable_def build_reverse_panic)
next
  assume "\<forall>(k, v) \<in> set es. ResolveTCPAddr e v \<noteq> None"
  then have "\<And>k v. (k, v) \<in> set (range_order e es) \<Longrightarrow> ResolveTCPAddr e v \<noteq> None"
    using assms by (auto simp: visits_all_def)
  then obtain r where "build_reverse e (range_order e es) Map.empty = Inr r"
    using build_reverse_ok by blast
  then show "\<exists>t. MemoryPubKeyTable e es = Inr t \<and> entries t = es"
    by (simp add: MemoryPubKeyTable_def memoryPubKeyTable_def)
qed

theorem C7_MemoryPubKeyTable_panics_iff_unresolvable_witness:
  "visits_all demo_env
   \<and> ResolveTCPAddr demo_env ''10.0.0.2'' = None
   \<and> MemoryPubKeyTable demo_env [(pkB, ''10.0.0.2:7777''), (zero_PubKey, ''10.0.0.2'')]
       = Inl (Panic ''error in resolving address'')
   \<and> ResolveTCPAddr demo_env ''10.0.0.2:7777'' \<noteq> None
   \<and> (\<exists>t. MemoryPubKeyTable demo_env [(pkB, ''10.0.0.2:7777'')] = Inr t
          \<and> entries t = [(pkB, ''10.0.0.2:7777'')])"
  using C7_MemoryPubKeyTable_panics_iff_unresolvable [OF visits_all_demo,
      of "[(pkB, ''10.0.0.2:7777''), (zero_PubKey, ''10.0.0.2'')]"]
    C7_MemoryPubKeyTable_panics_iff_unresolvable [OF visits_all_demo,
      of "[(pkB, ''10.0.0.2:7777'')]"]
  by (simp add: visits_all_demo) (simp add: demo_env_def demo_resolve_def)

text \<open>
  C8: for a table built from a mapping whose addresses resolve to pairwise distinct IPs
  (two entries with the same IP are the same key), and every key \<open>pk\<close> of the mapping,
  \<open>RemotePK (RemoteAddr pk) = pk\<close>.
\<close>

theorem C8_roundtrip:
  assumes "visits_all e" and "MemoryPubKeyTable e es = Inr t"
    and "\<forall>(k, v) \<in> set es. \<forall>(k', v') \<in> set es. \<forall>a a'.
           ResolveTCPAddr e v = Some a \<and> ResolveTCPAddr e v' = Some a' \<and> IP a = IP a'
           \<longrightarrow> k = k'"
    and "pk \<in> fst ` set es"
  shows "RemotePK e t (RemoteAddr t pk) = Inr pk"
proof -
  from assms(4) obtain s where s: "map_of es pk = Some s"
    by (metis domD dom_map_of_conv_image_fst)
  then have "(pk, s) \<in> set es" by (rule map_of_SomeD)
  from reverse_hit [OF assms(1,2) this assms(3)]
  obtain a where "ResolveTCPAddr e s = Some a" "reverse t (IP a) = Some pk" by blast
  moreover have "entries t = es"
    using assms(2) by (auto elim: MemoryPubKeyTable_Inr)
  ultimately show ?thesis using s by (simp add: RemotePK_def RemoteAddr_def)
qed

theorem C8_roundtrip_witness:
  "visits_all demo_env
   \<and> MemoryPubKeyTable demo_env [(pkB, ''10.0.0.2:7777'')] = Inr demo_table
   \<and> pkB \<in> fst ` set [(pkB, ''10.0.0.2:7777'')]
   \<and> RemoteAddr demo_table pkB = ''10.0.0.2:7777''
   \<and> RemotePK demo_env demo_table (RemoteAddr demo_table pkB) = Inr pkB"
  using C8_roundtrip [OF visits_all_demo demo_table_built, of pkB]
  by (simp add: visits_all_demo demo_table_built) (simp add: RemoteAddr_def demo_table_def)

text \<open>
  C10: \<open>memPKTable.RemotePK\<close> panics whenever the queried address fails TCP address
  resolution; for an address that resolves it returns the key stored for the resolved
  IP, or the zero key when there is none.
\<close>

theorem C10_RemotePK_panics_unresolvable:
  "(ResolveTCPAddr e address = None \<longrightarrow> RemotePK e t address = Inl (Panic ''net.ResolveTCPAddr''))
   \<and> (\<forall>addr. ResolveTCPAddr e address = Some addr \<longrightarrow>
        RemotePK e t address =
          Inr (case reverse t (IP addr) of None \<Rightarrow> zero_PubKey | Some k \<Rightarrow> k))"
  by (simp add: RemotePK_def)

theorem C10_RemotePK_panics_unresolvable_witness:
  "ResolveTCPAddr demo_env ''10.0.0.2'' = None
   \<and> RemotePK demo_env demo_table ''10.0.0.2'' = Inl (Panic ''net.ResolveTCPAddr'')
   \<and> ResolveTCPAddr demo_env ''10.0.0.3:1'' = Some \<lparr>IP = ''10.0.0.3'', Port = 1, Zone = []\<rparr>
   \<and> RemotePK demo_env demo_table ''10.0.0.3:1'' = Inr zero_PubKey"
  using C10_RemotePK_panics_unresolvable [of demo_env "''10.0.0.2''" demo_table]
    C10_RemotePK_panics_unresolvable [of demo_env "''10.0.0.3:1''" demo_table]
  by (simp add: demo_env_def demo_resolve_def demo_table_def)

section \<open>Theorems about the TCP factory\<close>

lemma PubKey_String_zero: "PubKey_String (replicate n 0) = replicate (2 * n) (CHR ''0'')"
  by (induction n) (simp_all add: PubKey_String_def hex_byte_def digit_def itoa.simps)

text \<open>\<open>Dial\<close> to a key that the table does not hold fails before any network call.\<close>

lemma Dial_unknown_remote:
  "map_of (entries (pkt f)) remote = None \<Longrightarrow>
   Dial e f DialTCP w remote = (Inl ErrUnknownRemote, w)"
  by (simp add: Dial_def RemoteAddr_def)

text \<open>
  \<open>Accept\<close> of a connection whose remote IP the table does not hold returns an error
  that quotes \<open>ErrUnknownRemote\<close>, and the connection is among the open ones afterwards.
\<close>

lemma Accept_unknown_remote:
  assumes "ResolveTCPAddr e (TCPAddr_String (conn_RemoteAddr c)) = Some a"
    and "reverse (pkt f) (IP a) = None"
  shows "fst (Accept e f (Inr c) w) =
           Inl (Err (''error: unknown remote, raddr: '' @ TCPAddr_String (conn_RemoteAddr c)
             @ '', rpk: '' @ replicate 66 (CHR ''0'')))"
    and "c \<in> set (open_conns (snd (Accept e f (Inr c) w)))"
  using assms PubKey_String_zero [of 33]
  by (simp_all add: Accept_def RemotePK_def Null_def Let_def zero_PubKey_def)

text \<open>
  C4, at a concrete input: the table is \<open>{B: "10.0.0.2:7777"}\<close> and a connection from
  \<open>10.0.0.3:1\<close> is accepted. \<open>Accept\<close> returns an error that quotes
  \<open>ErrUnknownRemote\<close>, and the connection is still open: no path of \<open>Accept\<close> closes it.
  \<open>Dial\<close> to the zero key, which the table does not hold, returns \<open>ErrUnknownRemote\<close>
  and makes no network call.
\<close>

theorem C4_Accept_leaves_unknown_conn_open:
  "Accept demo_env demo_factory (Inr demo_conn) \<lparr>open_conns = [], dialed = []\<rparr>
     = (Inl (Err (''error: unknown remote, raddr: 10.0.0.3:1, rpk: '' @ replicate 66 (CHR ''0''))),
        \<lparr>open_conns = [demo_conn], dialed = []\<rparr>)
   \<and> Dial demo_env demo_factory (\<lambda>laddr raddr. Inl ''connection refused'')
       \<lparr>open_conns = [], dialed = []\<rparr> zero_PubKey
     = (Inl ErrUnknownRemote, \<lparr>open_conns = [], dialed = []\<rparr>)"
proof -
  have s: "TCPAddr_String (conn_RemoteAddr demo_conn) = ''10.0.0.3:1''"
    by (simp add: TCPAddr_String_def demo_conn_def JoinHostPort_def digit_def itoa.simps)
  have "RemotePK demo_env demo_table ''10.0.0.3:1'' = Inr zero_PubKey"
    by (simp add: RemotePK_def demo_env_def demo_resolve_def demo_table_def)
  then have "Accept demo_env demo_factory (Inr demo_conn) \<lparr>open_conns = [], dialed = []\<rparr>
     = (Inl (Err (''error: unknown remote, raddr: 10.0.0.3:1, rpk: '' @ replicate 66 (CHR ''0''))),
        \<lparr>open_conns = [demo_conn], dialed = []\<rparr>)"
    using PubKey_String_zero [of 33]
    by (simp add: Accept_def s Let_def demo_factory_def Null_def zero_PubKey_def)
  moreover have "map_of (entries (pkt demo_factory)) zero_PubKey = None"
    using pkB_not_zero by (auto simp: demo_factory_def demo_table_def)
  then have "Dial demo_env demo_factory (\<lambda>laddr raddr. Inl ''connection refused'')
       \<lparr>open_conns = [], dialed = []\<rparr> zero_PubKey
     = (Inl ErrUnknownRemote, \<lparr>open_conns = [], dialed = []\<rparr>)"
    by (rule Dial_unknown_remote)
  ultimately show ?thesis by simp
qed

section \<open>Theorems about the file-backed table\<close>

lemma takeWhile_line:
  "c \<noteq> CHR 0x0A \<Longrightarrow>
   takeWhile (\<lambda>c. c \<noteq> CHR 0x0A) (replicate n c @ CHR 0x0A # rest) = replicate n c"
  by (induction n) auto

lemma demo_record_fields:
  "split_fields [] demo_record = [pkB_hex, ''10.0.0.2:7777'']"
  by (simp add: demo_record_def pkB_hex_def is_space_def)

lemma scan_lines_Nil: "scan_lines [] = []"
  by (simp add: scan_lines.simps)

lemma scan_lines_last_line:
  assumes "CHR 0x0A \<notin> set ln" and "length ln < MaxScanTokenSize"
  shows "scan_lines (ln @ [CHR 0x0A]) = [dropCR ln]"
proof -
  have "takeWhile (\<lambda>c. c \<noteq> CHR 0x0A) (ln @ [CHR 0x0A]) = ln"
    using assms(1) by (induction ln) auto
  then show ?thesis
    using assms(2) by (subst scan_lines.simps) (simp add: Let_def scan_lines_Nil)
qed

lemma scan_demo_record: "scan_lines (demo_record @ [CHR 0x0A]) = [demo_record]"
proof -
  have "scan_lines (demo_record @ [CHR 0x0A]) = [dropCR demo_record]"
    by (rule scan_lines_last_line)
      (simp_all add: demo_record_def pkB_hex_def MaxScanTokenSize_def)
  moreover have "dropCR demo_record = demo_record"
    by (simp add: dropCR_def demo_record_def)
  ultimately show ?thesis by simp
qed

lemma scan_demo_file_long: "scan_lines (demo_file 65536) = []"
  unfolding demo_file_def
  by (subst scan_lines.simps) (simp add: MaxScanTokenSize_def takeWhile_line Let_def)

lemma scan_demo_file_short:
  "scan_lines (demo_file 65535) = [replicate 65535 (CHR ''x''), demo_record]"
  unfolding demo_file_def
  by (subst scan_lines.simps)
    (simp add: MaxScanTokenSize_def takeWhile_line Let_def dropCR_def scan_demo_record)

lemma long_line_fields:
  "split_fields w (replicate n (CHR ''x'')) =
     (if w = [] \<and> n = 0 then [] else [w @ replicate n (CHR ''x'')])"
  by (induction n arbitrary: w) (simp_all add: is_space_def replicate_app_Cons_same)

lemma scan_loop_step:
  "scan_loop e (text # rest) es =
     (case line_entry e text of
        None \<Rightarrow> scan_loop e rest es
      | Some (pk, a) \<Rightarrow> scan_loop e rest (AList.update pk a es))"
proof (cases "Fields e text")
  case Nil
  then show ?thesis by (simp add: line_entry_def)
next
  case (Cons k fs)
  note outer = this
  show ?thesis
  proof (cases fs)
    case Nil
    with outer show ?thesis by (simp add: line_entry_def)
  next
    case (Cons a gs)
    with outer show ?thesis
      by (cases gs) (simp_all add: line_entry_def split: option.splits)
  qed
qed

lemma scan_loop_map_of:
  "map_of (scan_loop e lns es) = map_of (rev (wellformed_entries e lns) @ es)"
proof (induction lns arbitrary: es)
  case Nil
  then show ?case by (simp add: wellformed_entries_def map_filter_simps)
next
  case (Cons ln rest)
  show ?case
  proof (cases "line_entry e ln")
    case None
    with Cons show ?thesis
      by (simp add: scan_loop_step wellformed_entries_def map_filter_simps del: scan_loop.simps)
  next
    case (Some kv)
    obtain pk a where "kv = (pk, a)" by (cases kv)
    with Some Cons [of "AList.update pk a es"] show ?thesis
      by (simp add: scan_loop_step wellformed_entries_def map_filter_simps update_conv'
          map_add_def fun_eq_iff del: scan_loop.simps split: option.splits)
  qed
qed

lemma scan_loop_resolvable:
  assumes "stable_resolver e"
    and "\<forall>(pk, a) \<in> set es. ResolveTCPAddr e a \<noteq> None"
  shows "\<forall>(pk, a) \<in> set (scan_loop e lns es). ResolveTCPAddr e a \<noteq> None"
  using assms(2)
proof (induction lns arbitrary: es)
  case Nil
  then show ?case by simp
next
  case (Cons ln rest)
  show ?case
  proof (cases "line_entry e ln")
    case None
    with Cons show ?thesis by (simp add: scan_loop_step del: scan_loop.simps)
  next
    case (Some kv)
    obtain pk a where kv: "kv = (pk, a)" by (cases kv)
    with Some obtain s addr where "ResolveTCPAddr e s = Some addr" "a = TCPAddr_String addr"
      by (auto simp: line_entry_def split: list.splits option.splits)
    with assms(1) have "ResolveTCPAddr e a \<noteq> None"
      by (auto simp: stable_resolver_def)
    with Cons.prems set_update_subset [of pk a es]
    have "\<forall>(pk, a) \<in> set (AList.update pk a es). ResolveTCPAddr e a \<noteq> None"
      by auto
    from Cons.IH [OF this] Some kv show ?thesis
      by (simp add: scan_loop_step del: scan_loop.simps)
  qed
qed

lemma scan_lines_terminated:
  assumes "\<forall>ln \<in> set lns. CHR 0x0A \<notin> set ln \<and> length ln < MaxScanTokenSize"
  shows "scan_lines (concat (map (\<lambda>ln. ln @ [CHR 0x0A]) lns)) = map dropCR lns"
  using assms
proof (induction lns)
  case Nil
  then show ?case by (simp add: scan_lines_Nil)
next
  case (Cons ln lns)
  let ?rest = "concat (map (\<lambda>ln. ln @ [CHR 0x0A]) lns)"
  from Cons.prems have ln: "CHR 0x0A \<notin> set ln" "length ln < MaxScanTokenSize" by auto
  have tw: "takeWhile (\<lambda>c. c \<noteq> CHR 0x0A) (ln @ CHR 0x0A # ?rest) = ln"
    using ln(1) by (induction ln) auto
  have "scan_lines (ln @ CHR 0x0A # ?rest) = dropCR ln # scan_lines ?rest"
    using ln(2) by (subst scan_lines.simps) (simp add: tw Let_def)
  with Cons show ?case by simp
qed

text \<open>
  A file of newline-terminated lines, each shorter than the scanner's buffer, is read
  whole, and the table holds the entries of its well-formed lines, a later line
  overriding an earlier one for the same key.
\<close>

lemma FilePubKeyTable_short_lines:
  assumes "visits_all e" and "stable_resolver e"
    and "\<forall>ln \<in> set lns. CHR 0x0A \<notin> set ln \<and> length ln < MaxScanTokenSize"
  shows "\<exists>t. FilePubKeyTable e dbf (Inr (concat (map (\<lambda>ln. ln @ [CHR 0x0A]) lns))) = Inr t
    \<and> dbFile t = dbf
    \<and> map_of (entries (memPKTable_of t)) = map_of (rev (wellformed_entries e (map dropCR lns)))"
proof -
  let ?es = "scan_loop e (map dropCR lns) []"
  have "\<forall>(pk, a) \<in> set ?es. ResolveTCPAddr e a \<noteq> None"
    by (rule scan_loop_resolvable [OF assms(2)]) simp
  then have "\<And>k v. (k, v) \<in> set (range_order e ?es) \<Longrightarrow> ResolveTCPAddr e v \<noteq> None"
    using assms(1) by (auto simp: visits_all_def)
  then obtain r where "build_reverse e (range_order e ?es) Map.empty = Inr r"
    using build_reverse_ok by blast
  then show ?thesis
    by (simp add: FilePubKeyTable_def memoryPubKeyTable_def scan_lines_terminated [OF assms(3)]
        scan_loop_map_of)
qed

lemma stable_demo: "stable_resolver demo_env"
  by (auto simp: stable_resolver_def demo_env_def demo_resolve_def TCPAddr_String_def
      JoinHostPort_def digit_def itoa.simps split: if_splits)

text \<open>
  C6, at a concrete input: in a file whose first line is 65536 bytes long and whose
  second line is the well-formed record \<open>"<key> 10.0.0.2:7777"\<close>, the scan ends at the
  first line, and the table returned is empty: it lacks the entry of the well-formed
  line. With a first line one byte shorter the entry is there.
\<close>

theorem C6_FilePubKeyTable_drops_lines_after_long_line:
  "FilePubKeyTable demo_env ''pk.db'' (Inr (demo_file 65536))
     = Inr \<lparr>dbFile = ''pk.db'', memPKTable_of = \<lparr>entries = [], reverse = Map.empty\<rparr>\<rparr>
   \<and> FilePubKeyTable demo_env ''pk.db'' (Inr (demo_file 65535))
     = Inr \<lparr>dbFile = ''pk.db'', memPKTable_of = demo_table\<rparr>"
proof -
  have "scan_loop demo_env (scan_lines (demo_file 65536)) [] = []"
    by (simp add: scan_demo_file_long)
  then have long: "FilePubKeyTable demo_env ''pk.db'' (Inr (demo_file 65536))
     = Inr \<lparr>dbFile = ''pk.db'', memPKTable_of = \<lparr>entries = [], reverse = Map.empty\<rparr>\<rparr>"
    by (simp add: FilePubKeyTable_def memoryPubKeyTable_def demo_env_def)
  have addr: "TCPAddr_String \<lparr>IP = ''10.0.0.2'', Port = 7777, Zone = []\<rparr> = ''10.0.0.2:7777''"
    by (simp add: TCPAddr_String_def JoinHostPort_def digit_def itoa.simps)
  have "scan_loop demo_env (scan_lines (demo_file 65535)) [] = [(pkB, ''10.0.0.2:7777'')]"
    by (simp add: scan_demo_file_short demo_env_def long_line_fields demo_record_fields
        demo_unmarshal_def demo_resolve_def addr)
  then have "FilePubKeyTable demo_env ''pk.db'' (Inr (demo_file 65535))
     = Inr \<lparr>dbFile = ''pk.db'', memPKTable_of = demo_table\<rparr>"
    using demo_table_built by (simp add: FilePubKeyTable_def MemoryPubKeyTable_def)
  with long show ?thesis by simp
qed

section \<open>Facts about the log store\<close>

subsection \<open>The two loops in closed form\<close>

lemma iterateFromKey_eq: "iterateFromKey c logs = logs @ map snd (tl c)"
proof (induction c arbitrary: logs)
  case Nil
  then show ?case by (subst iterateFromKey.simps) (simp add: Cursor_Next_def item_at_def)
next
  case (Cons kv c)
  show ?case
  proof (cases c)
    case Nil
    then show ?thesis by (subst iterateFromKey.simps) (simp add: Cursor_Next_def item_at_def)
  next
    case (Cons kv' c')
    obtain k v where "kv' = (k, v)" by (cases kv')
    with Cons Cons.IH [of "logs @ [v]"] show ?thesis
      by (subst iterateFromKey.simps) (simp add: Cursor_Next_def item_at_def)
  qed
qed

lemma from_item_eq:
  "from_item c (item_at c) q logs = logs @ map snd (filter (\<lambda>(k, v). \<not> k < q) c)"
proof (induction c arbitrary: logs)
  case Nil
  then show ?case by (subst from_item.simps) (simp add: item_at_def)
next
  case (Cons kv c)
  obtain k v where kv: "kv = (k, v)" by (cases kv)
  show ?case
    by (subst from_item.simps)
      (simp add: kv item_at_def Cursor_Next_def Cons.IH [unfolded item_at_def])
qed

lemma tl_dropWhile_sorted:
  "sorted_wrt (<) (map fst (b::Bucket)) \<Longrightarrow> q \<in> fst ` set b \<Longrightarrow>
   tl (dropWhile (\<lambda>(k, v). k < q) b) = filter (\<lambda>(k, v). q < k) b"
proof (induction b)
  case Nil
  then show ?case by simp
next
  case (Cons kv b)
  obtain k v where kv: "kv = (k, v)" by (cases kv)
  show ?case
  proof (cases "k < q")
    case True
    then have "q \<noteq> k" "\<not> q < k" by auto
    with Cons.prems(2) kv have "q \<in> fst ` set b" by auto
    moreover from Cons.prems(1) have "sorted_wrt (<) (map fst b)" by simp
    ultimately have "tl (dropWhile (\<lambda>(k, v). k < q) b) = filter (\<lambda>(k, v). q < k) b"
      by (rule Cons.IH [rotated])
    with True \<open>\<not> q < k\<close> kv show ?thesis by simp
  next
    case False
    with Cons.prems kv have kq: "k = q" by force
    have "filter (\<lambda>(k, v). q < k) b = b"
      using Cons.prems(1) kv kq by (auto simp: filter_id_conv)
    with kv kq show ?thesis by simp
  qed
qed

text \<open>
  On a bucket in key order, \<open>LogsSince\<close> returns the values of the pairs whose key is
  above the key of the query, in key order, on either path.
\<close>

lemma LogsSince_keys:
  assumes "map_of db (bucket lg) = Some b" and "sorted_wrt (<) (map fst b)"
  shows "LogsSince Format lg (Inr db) t = Inr (map snd (filter (\<lambda>(k, v). Format t < k) b))"
proof (cases "map_of b (Format t)")
  case None
  then have "Format t \<notin> fst ` set b" by (simp add: map_of_eq_None_iff)
  then have "filter (\<lambda>(k, v). \<not> k < Format t) b = filter (\<lambda>(k, v). Format t < k) b"
    by (intro filter_cong) force+
  with None assms(1) show ?thesis
    by (simp add: LogsSince_def iterateFromBeginning_def Cursor_First_def from_item_eq)
next
  case (Some v)
  then have "Format t \<in> fst ` set b" by (force dest: map_of_SomeD)
  from tl_dropWhile_sorted [OF assms(2) this] Some assms(1) show ?thesis
    by (simp add: LogsSince_def Cursor_Seek_def iterateFromKey_eq Let_def)
qed

subsection \<open>The bucket after a sequence of stores\<close>

lemma put_sorted_keys:
  "set (map fst (put_sorted key val b)) = insert key (set (map fst b))"
proof (induction b)
  case Nil
  then show ?case by simp
next
  case (Cons kv b)
  obtain k v where "kv = (k, v)" by (cases kv)
  with Cons show ?case by (simp add: insert_commute)
qed

lemma put_sorted_sorted:
  "sorted_wrt (<) (map fst b) \<Longrightarrow> sorted_wrt (<) (map fst (put_sorted key val b))"
proof (induction b)
  case Nil
  then show ?case by simp
next
  case (Cons kv b)
  obtain k v where kv: "kv = (k, v)" by (cases kv)
  show ?case
  proof (cases "k < key")
    case True
    have "\<forall>x \<in> set (map fst (put_sorted key val b)). k < x"
      unfolding put_sorted_keys using Cons.prems kv True by auto
    with Cons kv True show ?thesis by simp
  next
    case False
    with Cons.prems kv show ?thesis by (cases "k = key") auto
  qed
qed

lemma put_sorted_map_of: "map_of (put_sorted key val b) = (map_of b)(key \<mapsto> val)"
  by (induction b) (auto simp: fun_upd_twist)

lemma Store_each_bucket:
  "Store_each Format lg db0 recs = Inr db \<Longrightarrow> map_of db0 (bucket lg) = Some b0 \<Longrightarrow>
   map_of db (bucket lg) = Some (put_each Format recs b0)"
proof (induction recs arbitrary: db0 b0)
  case Nil
  then show ?case by (simp add: put_each_def)
next
  case (Cons r recs)
  obtain t s where r: "r = (t, s)" by (cases r)
  from Cons.prems r obtain db' where
    st: "Store Format lg (Inr db0) t s = Inr db'" and rest: "Store_each Format lg db' recs = Inr db"
    by (auto split: sum.splits)
  from st Cons.prems(2) have "map_of db' (bucket lg) = Some (put_sorted (Format t) s b0)"
    by (auto simp: Store_def Update_Put_def Bucket_Put_def update_conv' split: if_splits)
  from Cons.IH [OF rest this] r show ?case by (simp add: put_each_def)
qed

lemma put_each_sorted:
  "sorted_wrt (<) (map fst b) \<Longrightarrow> sorted_wrt (<) (map fst (put_each Format recs b))"
  unfolding put_each_def
  by (induction recs arbitrary: b) (auto simp: put_sorted_sorted)

lemma put_each_keys:
  "set (map fst (put_each Format recs b)) = Format ` set (map fst recs) \<union> set (map fst b)"
  unfolding put_each_def
proof (induction recs arbitrary: b)
  case Nil
  then show ?case by simp
next
  case (Cons r recs)
  obtain t s where r: "r = (t, s)" by (cases r)
  show ?case
    unfolding r fold_simps prod.case Cons.IH put_sorted_keys by auto
qed

lemma put_each_map_of:
  "map_of (put_each Format recs b) k =
     (case map_of (rev (map (\<lambda>(t, s). (Format t, s)) recs)) k of
        None \<Rightarrow> map_of b k | Some v \<Rightarrow> Some v)"
  unfolding put_each_def
  by (induction recs arbitrary: b)
    (auto simp: put_sorted_map_of map_of_append split: option.splits)

lemma map_of_keyed:
  "inj_on Format (insert t' (fst ` set xs)) \<Longrightarrow>
   map_of (map (\<lambda>(t, s). (Format t, s)) xs) (Format t') = map_of xs t'"
  by (induction xs) (auto simp: inj_on_def)

subsection \<open>Keys and timestamps\<close>

lemma agrees_inj: "agrees_with_time Format T \<Longrightarrow> inj_on Format T"
  unfolding agrees_with_time_def inj_on_def
  by (metis less_irrefl linorder_neqE)

lemma agrees_iff:
  "agrees_with_time Format T \<Longrightarrow> a \<in> T \<Longrightarrow> b \<in> T \<Longrightarrow> Format a < Format b \<longleftrightarrow> a < b"
  unfolding agrees_with_time_def
  by (metis less_irrefl linorder_neqE less_asym)

lemma map_fst_filter_keys:
  "map fst (filter (\<lambda>(k, v). P k) b) = filter P (map fst b)"
  by (induction b) auto

lemma values_by_lookup:
  assumes d: "distinct (map fst b)"
  shows "map snd (filter (\<lambda>(k, v). P k) b)
    = map (\<lambda>k. the (map_of b k)) (filter P (map fst b))"
proof -
  have "map snd (filter (\<lambda>(k, v). P k) b)
      = map (\<lambda>kv. the (map_of b (fst kv))) (filter (\<lambda>(k, v). P k) b)"
    by (rule map_cong) (use d in \<open>auto simp: map_of_is_SomeI [OF d]\<close>)
  also have "\<dots> = map (\<lambda>k. the (map_of b k)) (map fst (filter (\<lambda>(k, v). P k) b))"
    by (simp add: comp_def)
  finally show ?thesis by (simp add: map_fst_filter_keys)
qed

subsection \<open>Concrete stores\<close>

text \<open>The store of the app \<open>foo\<close>, opened on an empty database.\<close>

lemma newBoltDB_fresh:
  "newBoltDB ''logs.db'' ''foo'' (Inr []) = Inr (demo_logs, [(''foo'', [])])"
  by (simp add: newBoltDB_def demo_logs_def)

lemma stored_demo:
  "Store_each Format_RFC3339Nano demo_logs [(''foo'', [])] demo_recs = Inr demo_db"
  by (simp add: demo_recs_def demo_logs_def demo_db_def Store_def Update_Put_def Bucket_Put_def
      MaxKeySize_def MaxValueSize_def pad_def frac_def digit_def itoa.simps)

lemma stored_frac:
  "Store_each Format_RFC3339Nano demo_logs [(''foo'', [])] frac_recs = Inr frac_db"
  by (simp add: frac_recs_def demo_logs_def frac_db_def Store_def Update_Put_def Bucket_Put_def
      MaxKeySize_def MaxValueSize_def pad_def frac_def digit_def itoa.simps)

lemma agrees_demo:
  "agrees_with_time Format_RFC3339Nano (insert (2000, 1, 1, 0, 0, 0, 0) (set (map fst demo_recs)))"
  by (simp add: agrees_with_time_def demo_recs_def pad_def frac_def digit_def itoa.simps)

lemma agrees_demo_between:
  "agrees_with_time Format_RFC3339Nano (insert (2000, 1, 15, 12, 0, 0, 0) (set (map fst demo_recs)))"
  by (simp add: agrees_with_time_def demo_recs_def pad_def frac_def digit_def itoa.simps)

section \<open>Theorems about the log store\<close>

text \<open>
  C1, as the code has it: after any sequence of \<open>Store\<close> calls into a fresh bucket, and
  for every query time \<open>t\<close> such that the key text order agrees with the order in time
  on the timestamps involved, \<open>LogsSince t\<close> returns the stored entries whose
  timestamp is strictly after \<open>t\<close>, in chronological order. This holds on both paths:
  when \<open>t\<close> is a stored key and when it is not.
\<close>

theorem C1_LogsSince_strictly_after:
  fixes Format :: "'t::linorder \<Rightarrow> string"
  assumes agr: "agrees_with_time Format (insert t (set (map fst recs)))"
    and fresh: "map_of db0 (bucket lg) = Some []"
    and stored: "Store_each Format lg db0 recs = Inr db"
  shows "LogsSince Format lg (Inr db) t = Inr (entries_where (\<lambda>t'. t < t') recs)"
proof -
  define b where "b = put_each Format recs []"
  define T where "T = insert t (set (map fst recs))"
  define ts where "ts = sort (remdups (filter (\<lambda>t'. t < t') (map fst recs)))"
  have bdb: "map_of db (bucket lg) = Some b"
    unfolding b_def by (rule Store_each_bucket [OF stored fresh])
  have sb: "sorted_wrt (<) (map fst b)"
    unfolding b_def by (rule put_each_sorted) simp
  have keys: "set (map fst b) = Format ` set (map fst recs)"
    unfolding b_def using put_each_keys [of Format recs "[]"] by simp
  have ts_set: "set ts = {t' \<in> set (map fst recs). t < t'}"
    unfolding ts_def by auto
  have ts_T: "set ts \<subseteq> T" unfolding ts_set T_def by auto
  have ts_sorted: "sorted_wrt (<) ts"
    unfolding ts_def by (simp add: strict_sorted_iff)
  have "sorted_wrt (\<lambda>a b. Format a < Format b) ts"
    using ts_sorted
  proof (rule sorted_wrt_mono_rel [rotated])
    fix x y assume "x \<in> set ts" "y \<in> set ts" "x < y"
    with ts_T agr show "Format x < Format y"
      unfolding agrees_with_time_def T_def by blast
  qed
  then have fs: "sorted_wrt (<) (map Format ts)" by (simp add: sorted_wrt_map)
  have ks: "sorted_wrt (<) (filter (\<lambda>k. Format t < k) (map fst b))"
    using sb by (rule sorted_wrt_filter)
  have "set (filter (\<lambda>k. Format t < k) (map fst b)) = set (map Format ts)"
  proof -
    have iff: "\<And>t'. t' \<in> set (map fst recs) \<Longrightarrow> Format t < Format t' \<longleftrightarrow> t < t'"
      by (rule agrees_iff [OF agr]) auto
    have "set (filter (\<lambda>k. Format t < k) (map fst b))
        = {k \<in> Format ` set (map fst recs). Format t < k}"
      using keys by auto
    also have "\<dots> = Format ` {t' \<in> set (map fst recs). t < t'}"
      using iff by blast
    also have "\<dots> = set (map Format ts)"
      using ts_set by simp
    finally show ?thesis .
  qed
  with fs ks have keq: "filter (\<lambda>k. Format t < k) (map fst b) = map Format ts"
    by (metis strict_sorted_equal)
  have look: "map_of b (Format t') = map_of (rev recs) t'" if "t' \<in> set ts" for t'
  proof -
    have "inj_on Format (insert t' (fst ` set (rev recs)))"
      using agrees_inj [OF agr] that ts_set by (auto simp: inj_on_def)
    then have "map_of (map (\<lambda>(t, s). (Format t, s)) (rev recs)) (Format t') = map_of (rev recs) t'"
      by (rule map_of_keyed)
    moreover from that have "t' \<in> fst ` set (rev recs)" unfolding ts_set by auto
    then have "map_of (rev recs) t' \<noteq> None" by (simp add: map_of_eq_None_iff)
    ultimately show ?thesis
      unfolding b_def put_each_map_of by (auto simp: rev_map)
  qed
  have "distinct (map fst b)" using sb by (simp add: strict_sorted_iff)
  then have "map snd (filter (\<lambda>(k, v). Format t < k) b)
      = map (\<lambda>k. the (map_of b k)) (filter (\<lambda>k. Format t < k) (map fst b))"
    by (rule values_by_lookup)
  also have "\<dots> = map (\<lambda>t'. the (map_of b (Format t'))) ts"
    by (simp add: keq comp_def)
  also have "\<dots> = map (\<lambda>t'. the (map_of (rev recs) t')) ts"
    by (rule map_cong) (simp_all add: look)
  finally have "map snd (filter (\<lambda>(k, v). Format t < k) b) = entries_where (\<lambda>t'. t < t') recs"
    by (simp add: entries_where_def ts_def)
  with LogsSince_keys [OF bdb sb, of Format t] show ?thesis by simp
qed

text \<open>
  The store holds \<open>foo\<close> at 2000-03-01, \<open>bar\<close> at 2000-01-01 and \<open>middle\<close> at
  2000-02-01. A query at 2000-01-01 (a stored key) and a query at 2000-01-15 12:00 (between
  two stored keys) both return \<open>middle\<close>, \<open>foo\<close>.
\<close>

theorem C1_LogsSince_strictly_after_witness:
  "agrees_with_time Format_RFC3339Nano (insert (2000, 1, 1, 0, 0, 0, 0) (set (map fst demo_recs)))
   \<and> agrees_with_time Format_RFC3339Nano (insert (2000, 1, 15, 12, 0, 0, 0) (set (map fst demo_recs)))
   \<and> map_of [(''foo'', [])] (bucket demo_logs) = Some []
   \<and> Store_each Format_RFC3339Nano demo_logs [(''foo'', [])] demo_recs = Inr demo_db
   \<and> LogsSince Format_RFC3339Nano demo_logs (Inr demo_db) (2000, 1, 1, 0, 0, 0, 0)
       = Inr [''middle'', ''foo'']
   \<and> LogsSince Format_RFC3339Nano demo_logs (Inr demo_db) (2000, 1, 15, 12, 0, 0, 0)
       = Inr [''middle'', ''foo'']"
proof -
  have fresh: "map_of [(''foo'', [])] (bucket demo_logs) = Some []"
    by (simp add: demo_logs_def)
  have "entries_where (\<lambda>t'. (2000, 1, 1, 0, 0, 0, 0) < t') demo_recs = [''middle'', ''foo'']"
    by (simp add: entries_where_def demo_recs_def)
  with C1_LogsSince_strictly_after [OF agrees_demo fresh stored_demo]
  have exact: "LogsSince Format_RFC3339Nano demo_logs (Inr demo_db) (2000, 1, 1, 0, 0, 0, 0)
      = Inr [''middle'', ''foo'']"
    by (rule trans [OF _ arg_cong])
  have "entries_where (\<lambda>t'. (2000, 1, 15, 12, 0, 0, 0) < t') demo_recs = [''middle'', ''foo'']"
    by (simp add: entries_where_def demo_recs_def)
  with C1_LogsSince_strictly_after [OF agrees_demo_between fresh stored_demo]
  have between: "LogsSince Format_RFC3339Nano demo_logs (Inr demo_db) (2000, 1, 15, 12, 0, 0, 0)
      = Inr [''middle'', ''foo'']"
    by (rule trans [OF _ arg_cong])
  show ?thesis
    by (rule conjI [OF agrees_demo conjI [OF agrees_demo_between conjI [OF fresh
          conjI [OF stored_demo conjI [OF exact between]]]]])
qed

text \<open>
  C1 as stated fails. In the store above, the query at 2000-01-01, the timestamp of
  \<open>bar\<close>, returns \<open>middle\<close>, \<open>foo\<close>: the entry whose timestamp equals the query is
  left out, while the entries with timestamp at or after the query are \<open>bar\<close>,
  \<open>middle\<close>, \<open>foo\<close>. And with \<open>sharp\<close> stored at 00:00:00 and \<open>half past\<close> half a
  second later, a query before both returns \<open>half past\<close> first: the key
  \<open>...00.5Z\<close> is below the key \<open>...00Z\<close>.
\<close>

theorem C1_LogsSince_not_at_or_after:
  "Store_each Format_RFC3339Nano demo_logs [(''foo'', [])] demo_recs = Inr demo_db
   \<and> LogsSince Format_RFC3339Nano demo_logs (Inr demo_db) (2000, 1, 1, 0, 0, 0, 0)
       = Inr [''middle'', ''foo'']
   \<and> entries_where (\<lambda>t'. (2000, 1, 1, 0, 0, 0, 0) \<le> t') demo_recs = [''bar'', ''middle'', ''foo'']
   \<and> Store_each Format_RFC3339Nano demo_logs [(''foo'', [])] frac_recs = Inr frac_db
   \<and> LogsSince Format_RFC3339Nano demo_logs (Inr frac_db) (1999, 2, 1, 0, 0, 0, 0)
       = Inr [''half past'', ''sharp'']
   \<and> entries_where (\<lambda>t'. (1999, 2, 1, 0, 0, 0, 0) \<le> t') frac_recs = [''sharp'', ''half past'']"
proof -
  have "LogsSince Format_RFC3339Nano demo_logs (Inr demo_db) (2000, 1, 1, 0, 0, 0, 0)
      = Inr [''middle'', ''foo'']"
    by (simp add: LogsSince_def demo_logs_def demo_db_def pad_def frac_def digit_def itoa.simps
        Cursor_Seek_def iterateFromKey_eq item_at_def)
  moreover have "LogsSince Format_RFC3339Nano demo_logs (Inr frac_db) (1999, 2, 1, 0, 0, 0, 0)
      = Inr [''half past'', ''sharp'']"
    by (simp add: LogsSince_def demo_logs_def frac_db_def pad_def frac_def digit_def itoa.simps
        iterateFromBeginning_def Cursor_First_def from_item_eq)
  moreover have
    "entries_where (\<lambda>t'. (2000, 1, 1, 0, 0, 0, 0) \<le> t') demo_recs = [''bar'', ''middle'', ''foo'']"
    "entries_where (\<lambda>t'. (1999, 2, 1, 0, 0, 0, 0) \<le> t') frac_recs = [''sharp'', ''half past'']"
    by (simp_all add: entries_where_def demo_recs_def frac_recs_def)
  ultimately show ?thesis by (simp add: stored_demo stored_frac)
qed

text \<open>
  C9, as the code has it. \<open>Write\<close> opens the database first and returns the error of
  a failed open, whatever the record. With the database open, the key is \<open>p[1:36]\<close>,
  whose bounds Go checks against the capacity of \<open>p\<close>, not its length. When the
  capacity is below 36, \<open>Write\<close> panics. When the capacity is at least 36 the slice
  expression does not panic, whatever the length: in an existing bucket, a record within
  bbolt's value size is stored under the 35 bytes at indices 1 to 35 of the backing array,
  and \<open>Write\<close> returns the length of the record; these are bytes 1 to 35 of the record
  itself when it has at least 36 bytes. A record above bbolt's value size is refused with
  the error of \<open>Put\<close>, and a missing bucket makes \<open>Put\<close> panic on the nil bucket.
\<close>

theorem C9_Write_key_slice:
  "(file = Inl err \<longrightarrow> Write lg file p = Inl (Err err))
   \<and> (file = Inr db \<and> length (elems p) + length (spare p) < 36
        \<longrightarrow> Write lg file p = Inl (Panic ''slice bounds out of range''))
   \<and> (file = Inr db \<and> 36 \<le> length (elems p) + length (spare p)
        \<and> map_of db (bucket lg) = Some b \<and> length (elems p) \<le> MaxValueSize
        \<longrightarrow> Write lg file p =
              Inr (length (elems p),
                   AList.update (bucket lg)
                     (put_sorted (take 35 (drop 1 (elems p @ spare p))) (elems p) b) db))
   \<and> (36 \<le> length (elems p)
        \<longrightarrow> take 35 (drop 1 (elems p @ spare p)) = take 35 (drop 1 (elems p)))
   \<and> (file = Inr db \<and> 36 \<le> length (elems p) + length (spare p)
        \<and> map_of db (bucket lg) = Some b \<and> MaxValueSize < length (elems p)
        \<longrightarrow> Write lg file p = Inl (Err ''value too large''))
   \<and> (file = Inr db \<and> 36 \<le> length (elems p) + length (spare p)
        \<and> map_of db (bucket lg) = None
        \<longrightarrow> Write lg file p = Inl nil_deref)"
proof -
  define key where "key = take 35 (drop 1 (elems p @ spare p))"
  have rs: "reslice p 1 36 = Some key" and len: "length key = 35"
    if "36 \<le> length (elems p) + length (spare p)"
  proof -
    from that show "reslice p 1 36 = Some key"
      by (simp add: reslice_def key_def)
    have gen: "36 \<le> length xs \<Longrightarrow> length (take 35 (drop 1 xs)) = 35" for xs :: string
      by simp
    show "length key = 35"
      unfolding key_def by (rule gen) (use that in simp)
  qed
  have opened: "Write lg file p = Inl (Err err)" if "file = Inl err"
    using that by (simp add: Write_def)
  have small: "Write lg file p = Inl (Panic ''slice bounds out of range'')"
    if "file = Inr db \<and> length (elems p) + length (spare p) < 36"
    using that by (simp add: Write_def reslice_def)
  have stored: "Write lg file p =
      Inr (length (elems p), AList.update (bucket lg) (put_sorted key (elems p) b) db)"
    if h: "file = Inr db \<and> 36 \<le> length (elems p) + length (spare p)
      \<and> map_of db (bucket lg) = Some b \<and> length (elems p) \<le> MaxValueSize"
  proof -
    from h have c: "36 \<le> length (elems p) + length (spare p)" by simp
    from len [OF c] have "key \<noteq> []" by auto
    with len [OF c] h have "Bucket_Put b key (elems p) = Inr (put_sorted key (elems p) b)"
      by (simp add: Bucket_Put_def MaxKeySize_def)
    with h rs [OF c] show ?thesis
      by (simp add: Write_def Update_Put_def)
  qed
  have inside: "take 35 (drop 1 (elems p @ spare p)) = take 35 (drop 1 (elems p))"
    if "36 \<le> length (elems p)"
    using that by simp
  have large: "Write lg file p = Inl (Err ''value too large'')"
    if h: "file = Inr db \<and> 36 \<le> length (elems p) + length (spare p)
      \<and> map_of db (bucket lg) = Some b \<and> MaxValueSize < length (elems p)"
  proof -
    from h have c: "36 \<le> length (elems p) + length (spare p)" by simp
    from len [OF c] have "key \<noteq> []" by auto
    with len [OF c] h have "Bucket_Put b key (elems p) = Inl (Err ''value too large'')"
      by (simp add: Bucket_Put_def MaxKeySize_def)
    with h rs [OF c] show ?thesis
      by (simp add: Write_def Update_Put_def)
  qed
  have missing: "Write lg file p = Inl nil_deref"
    if h: "file = Inr db \<and> 36 \<le> length (elems p) + length (spare p)
      \<and> map_of db (bucket lg) = None"
  proof -
    from h have c: "36 \<le> length (elems p) + length (spare p)" by simp
    with h rs [OF c] show ?thesis
      by (simp add: Write_def Update_Put_def)
  qed
  from opened small stored inside large missing show ?thesis
    unfolding key_def by (intro conjI impI)
qed

text \<open>
  A failed open; a slice of 5 bytes with capacity 5, which panics; the slice of 5 bytes
  with capacity 36, which is stored under a key read past its length; a record of 40
  bytes, stored under its bytes 1 to 35; a slice with capacity 36 on a database without
  the bucket; and a record above bbolt's value size.
\<close>

theorem C9_Write_key_slice_witness:
  "Write demo_logs (Inl ''timeout'') long_slice = Inl (Err ''timeout'')
   \<and> length (elems \<lparr>elems = ''short'', spare = []\<rparr>)
       + length (spare \<lparr>elems = ''short'', spare = []\<rparr>) < 36
   \<and> Write demo_logs (Inr [(''foo'', [])]) \<lparr>elems = ''short'', spare = []\<rparr>
       = Inl (Panic ''slice bounds out of range'')
   \<and> length (elems short_slice) < 36
   \<and> 36 \<le> length (elems short_slice) + length (spare short_slice)
   \<and> map_of [(''foo'', [])] (bucket demo_logs) = Some []
   \<and> Write demo_logs (Inr [(''foo'', [])]) short_slice
       = Inr (5, [(''foo'', [(''hort'' @ replicate 31 (CHR ''-''), ''short'')])])
   \<and> 36 \<le> length (elems long_slice) \<and> length (elems long_slice) \<le> MaxValueSize
   \<and> Write demo_logs (Inr [(''foo'', [])]) long_slice
       = Inr (40, [(''foo'', [(''2000-01-01T00:00:00.000000001+00:00'', elems long_slice)])])
   \<and> map_of [] (bucket demo_logs) = None
   \<and> Write demo_logs (Inr []) short_slice = Inl nil_deref
   \<and> MaxValueSize < length (elems \<lparr>elems = replicate (2 ^ 31) (CHR ''x''), spare = []\<rparr>)
   \<and> Write demo_logs (Inr [(''foo'', [])]) \<lparr>elems = replicate (2 ^ 31) (CHR ''x''), spare = []\<rparr>
       = Inl (Err ''value too large'')"
proof -
  have fresh: "map_of [(''foo'', [])] (bucket demo_logs) = Some []"
    and none: "map_of [] (bucket demo_logs) = None"
    by (simp_all add: demo_logs_def)
  have big: "MaxValueSize < length (elems \<lparr>elems = replicate (2 ^ 31) (CHR ''x''), spare = []\<rparr>)"
    by (simp add: MaxValueSize_def)
  have w1: "Write demo_logs (Inl ''timeout'') long_slice = Inl (Err ''timeout'')"
    using C9_Write_key_slice [of "Inl ''timeout''" "''timeout''" demo_logs long_slice]
    by simp
  have c2: "length (elems \<lparr>elems = ''short'', spare = []\<rparr>)
       + length (spare \<lparr>elems = ''short'', spare = []\<rparr>) < 36"
    by simp
  have w2: "Write demo_logs (Inr [(''foo'', [])]) \<lparr>elems = ''short'', spare = []\<rparr>
       = Inl (Panic ''slice bounds out of range'')"
    using C9_Write_key_slice [of "Inr [(''foo'', [])]" _ demo_logs
        "\<lparr>elems = ''short'', spare = []\<rparr>" "[(''foo'', [])]"] c2
    by simp
  have c3: "length (elems short_slice) < 36"
    "36 \<le> length (elems short_slice) + length (spare short_slice)"
    by (simp_all add: short_slice_def)
  have w3: "Write demo_logs (Inr [(''foo'', [])]) short_slice
       = Inr (5, [(''foo'', [(''hort'' @ replicate 31 (CHR ''-''), ''short'')])])"
    using C9_Write_key_slice [of "Inr [(''foo'', [])]" _ demo_logs short_slice
        "[(''foo'', [])]" "[]"] c3(2) fresh
    by (simp add: short_slice_def MaxValueSize_def demo_logs_def)
  have c4: "36 \<le> length (elems long_slice)" "length (elems long_slice) \<le> MaxValueSize"
    by (simp_all add: long_slice_def MaxValueSize_def)
  have w4: "Write demo_logs (Inr [(''foo'', [])]) long_slice
       = Inr (40, [(''foo'', [(''2000-01-01T00:00:00.000000001+00:00'', elems long_slice)])])"
    using C9_Write_key_slice [of "Inr [(''foo'', [])]" _ demo_logs long_slice
        "[(''foo'', [])]" "[]"] c4 fresh
    by (simp add: long_slice_def demo_logs_def)
  have w5: "Write demo_logs (Inr []) short_slice = Inl nil_deref"
    using C9_Write_key_slice [of "Inr []" _ demo_logs short_slice "[]"] c3(2) none
    by simp
  have w6: "Write demo_logs (Inr [(''foo'', [])]) \<lparr>elems = replicate (2 ^ 31) (CHR ''x''), spare = []\<rparr>
       = Inl (Err ''value too large'')"
    using C9_Write_key_slice [of "Inr [(''foo'', [])]" _ demo_logs
        "\<lparr>elems = replicate (2 ^ 31) (CHR ''x''), spare = []\<rparr>" "[(''foo'', [])]" "[]"] big fresh
    by (simp add: demo_logs_def)
  show ?thesis
    by (rule conjI [OF w1 conjI [OF c2 conjI [OF w2 conjI [OF c3(1) conjI [OF c3(2)
          conjI [OF fresh conjI [OF w3 conjI [OF c4(1) conjI [OF c4(2) conjI [OF w4
          conjI [OF none conjI [OF w5 conjI [OF big w6]]]]]]]]]]]]])
qed

text \<open>
  C9 as stated fails: a record shorter than 36 bytes does not always make \<open>Write\<close>
  panic. A slice of 5 bytes with capacity 36 is stored, under a key read past its
  length, and \<open>Write\<close> returns 5; and when the database cannot be opened \<open>Write\<close>
  returns the error.
\<close>

theorem C9_Write_short_slice_without_panic:
  "length (elems short_slice) = 5
   \<and> Write demo_logs (Inr [(''foo'', [])]) short_slice
       = Inr (5, [(''foo'', [(''hort'' @ replicate 31 (CHR ''-''), ''short'')])])
   \<and> Write demo_logs (Inl ''timeout'') short_slice = Inl (Err ''timeout'')"
  by (simp add: Write_def short_slice_def demo_logs_def reslice_def Update_Put_def
      Bucket_Put_def MaxKeySize_def MaxValueSize_def)

section \<open>Theorems about spawning an app\<close>

text \<open>A successful or failed spawn never binds a reserved port.\<close>

lemma SpawnApp_no_reserved_bound:
  assumes "no_reserved_bound reserved node"
  shows "no_reserved_bound reserved (snd (SpawnApp reserved Start node conf))"
proof (cases "reserved (conf_Port conf) \<or> port_bound node (conf_Port conf)")
  case True
  with assms show ?thesis by (auto simp: SpawnApp_def)
next
  case False
  show ?thesis
  proof (cases "Start (App conf @ ''.v'' @ Version conf)")
    case (Inl err)
    with False assms show ?thesis
      by (simp add: SpawnApp_def Let_def no_reserved_bound_def)
  next
    case (Inr conn)
    have sub: "set (AList.update (App conf) \<lparr>bind_conn = conn, bind_port = conf_Port conf\<rparr>
             (startedApps node))
        \<subseteq> insert (App conf, \<lparr>bind_conn = conn, bind_port = conf_Port conf\<rparr>)
            (set (startedApps node))"
      by (rule set_update_subset)
    from sub False assms
    have "\<forall>(name, b) \<in> set (AList.update (App conf)
        \<lparr>bind_conn = conn, bind_port = conf_Port conf\<rparr> (startedApps node)).
        \<not> reserved (bind_port b)"
      by (auto simp: no_reserved_bound_def)
    then have "no_reserved_bound reserved
        (node\<lparr>executed := executed node @ [App conf @ ''.v'' @ Version conf],
              startedApps := AList.update (App conf)
                 \<lparr>bind_conn = conn, bind_port = conf_Port conf\<rparr> (startedApps node),
              served := served node @ [(conn, conf_Port conf)]\<rparr>)"
      by (simp add: no_reserved_bound_def)
    with False Inr show ?thesis
      by (simp add: SpawnApp_def Let_def)
  qed
qed

text \<open>
  C3: in every node state (no reserved port being bound) in which port \<open>p\<close> is bound to
  a started app, spawning an app on \<open>p\<close> fails with "app ... is already started", and
  spawning an app on a reserved port fails with "can't bind to reserved port ...". In
  both cases the node is left as it was: the original binding stays, nothing is executed
  and no \<open>ServeApp\<close> call reaches the router.
\<close>

theorem C3_SpawnApp_rejects_bound_and_reserved_ports:
  assumes "no_reserved_bound reserved node"
  shows "(port_bound node (conf_Port conf) \<longrightarrow>
            SpawnApp reserved Start node conf =
              (Inl (Err (''app '' @ App conf @ '' is already started'')), node))
       \<and> (reserved (conf_Port conf) \<longrightarrow>
            SpawnApp reserved Start node conf =
              (Inl (Err (''can't bind to reserved port '' @ itoa (conf_Port conf))), node))"
proof (intro conjI impI)
  assume "port_bound node (conf_Port conf)"
  moreover from this assms have "\<not> reserved (conf_Port conf)"
    by (auto simp: port_bound_def no_reserved_bound_def)
  ultimately show "SpawnApp reserved Start node conf =
      (Inl (Err (''app '' @ App conf @ '' is already started'')), node)"
    by (simp add: SpawnApp_def)
next
  assume "reserved (conf_Port conf)"
  then show "SpawnApp reserved Start node conf =
      (Inl (Err (''can't bind to reserved port '' @ itoa (conf_Port conf))), node)"
    by (simp add: SpawnApp_def)
qed

text \<open>
  The three cases of \<open>TestNodeSpawnAppValidations\<close>, with ports 0 to 3 reserved and an
  executer that fails with \<open>foo\<close>.
\<close>

theorem C3_SpawnApp_rejects_bound_and_reserved_ports_witness:
  "no_reserved_bound (\<lambda>p. p \<le> 3) test_node
   \<and> port_bound test_node (conf_Port (test_conf ''skychat'' 10))
   \<and> SpawnApp (\<lambda>p. p \<le> 3) (\<lambda>cmd. Inl ''foo'') test_node (test_conf ''skychat'' 10)
       = (Inl (Err ''app skychat is already started''), test_node)
   \<and> conf_Port (test_conf ''skychat'' 2) \<le> 3
   \<and> SpawnApp (\<lambda>p. p \<le> 3) (\<lambda>cmd. Inl ''foo'') test_node (test_conf ''skychat'' 2)
       = (Inl (Err ''can't bind to reserved port 2''), test_node)
   \<and> fst (SpawnApp (\<lambda>p. p \<le> 3) (\<lambda>cmd. Inl ''foo'') test_node (test_conf ''foo'' 11))
       = Inl (Err ''failed to run app executable: foo'')"
proof -
  have inv: "no_reserved_bound (\<lambda>p. p \<le> 3) test_node"
    by (simp add: no_reserved_bound_def test_node_def)
  have bound: "port_bound test_node (conf_Port (test_conf ''skychat'' 10))"
    by (simp add: port_bound_def test_node_def test_conf_def)
  have res: "conf_Port (test_conf ''skychat'' 2) \<le> 3"
    by (simp add: test_conf_def)
  from C3_SpawnApp_rejects_bound_and_reserved_ports [OF inv,
      where conf = "test_conf ''skychat'' 10" and Start = "\<lambda>cmd. Inl ''foo''"] bound
  have started: "SpawnApp (\<lambda>p. p \<le> 3) (\<lambda>cmd. Inl ''foo'') test_node (test_conf ''skychat'' 10)
       = (Inl (Err ''app skychat is already started''), test_node)"
    by (simp add: test_conf_def)
  from C3_SpawnApp_rejects_bound_and_reserved_ports [OF inv,
      where conf = "test_conf ''skychat'' 2" and Start = "\<lambda>cmd. Inl ''foo''"] res
  have reserved: "SpawnApp (\<lambda>p. p \<le> 3) (\<lambda>cmd. Inl ''foo'') test_node (test_conf ''skychat'' 2)
       = (Inl (Err ''can't bind to reserved port 2''), test_node)"
    by (simp add: test_conf_def digit_def itoa.simps)
  have failed: "fst (SpawnApp (\<lambda>p. p \<le> 3) (\<lambda>cmd. Inl ''foo'') test_node (test_conf ''foo'' 11))
       = Inl (Err ''failed to run app executable: foo'')"
    by (simp add: SpawnApp_def port_bound_def test_node_def test_conf_def Let_def)
  show ?thesis
    by (rule conjI [OF inv conjI [OF bound conjI [OF started conjI [OF res
          conjI [OF reserved failed]]]]])
qed

end
